theory Spec2Isabelle
  imports Main
begin

section \<open>Python values shared by both programs\<close>

text \<open>
  Strings are lists of characters; a character stands for a code point below 256.
  \<open>isspace\<close> is Python's \<open>str.isspace\<close> on these code points, \<open>strip\<close> is
  \<open>str.strip()\<close> without argument, \<open>lower\<close> is \<open>str.lower()\<close>.
\<close>

definition isspace :: "char \<Rightarrow> bool" where
  "isspace c =
     (let n = (of_char c :: nat)
      in (9 \<le> n \<and> n \<le> 13) \<or> (28 \<le> n \<and> n \<le> 32) \<or> n = 133 \<or> n = 160)"

definition strip :: "string \<Rightarrow> string" where
  "strip s = rev (dropWhile isspace (rev (dropWhile isspace s)))"

definition lower_char :: "char \<Rightarrow> char" where
  "lower_char c =
     (let n = (of_char c :: nat)
      in if (65 \<le> n \<and> n \<le> 90) \<or> (192 \<le> n \<and> n \<le> 222 \<and> n \<noteq> 215)
         then char_of (n + 32) else c)"

definition lower :: "string \<Rightarrow> string" where
  "lower s = map lower_char s"

text \<open>
  Truthiness of an optional string: \<open>None\<close> (a missing key or JSON null) and the empty
  string are falsy. \<open>py_or a b\<close> is Python's \<open>a or b\<close>.
\<close>

definition truthy :: "string option \<Rightarrow> bool" where
  "truthy v = (case v of None \<Rightarrow> False | Some s \<Rightarrow> s \<noteq> [])"

definition py_or :: "string option \<Rightarrow> string option \<Rightarrow> string option" where
  "py_or a b = (if truthy a then a else b)"

text \<open>The exceptions the two programs raise or let through.\<close>

datatype exn =
    FileNotFoundError
  | JSONDecodeError
  | AttributeError
  | ValueError string
  | InvalidURL
  | UnicodeEncodeError
  | OSError
  | ContextException string
  | ContextTooSmallError
  | CollaboratorError string

section \<open>scripts/prune\_r2r\_upsert\_cache.py\<close>

subsection \<open>Data\<close>

text \<open>
  A cache record is a JSON object; the script reads its \<open>doc_id\<close> and \<open>filename\<close>
  keys with \<open>dict.get\<close>, so each is optional. The cache is the dict loaded from the
  file, kept as an association list in insertion order.
\<close>

record entry =
  doc_id :: "string option"
  filename :: "string option"

type_synonym cache = "(string \<times> entry) list"

text \<open>
  What \<open>client.get\<close> can do: raise an \<open>httpx.HTTPError\<close> (which may carry a response
  with a status code), raise an exception that is not an \<open>httpx.HTTPError\<close>
  (\<open>httpx.InvalidURL\<close>, raised for a request path with a control character, is one), or
  return a response with a status code and a body. The body is described by what \<open>r.json().get("results", {})\<close> makes of it:
  \<^item> \<open>Unparsable\<close>: \<open>r.json()\<close> raises, or its value is not a dict (then \<open>.get\<close> raises
    inside the \<open>try\<close>);
  \<^item> \<open>NoResults\<close>: a dict without the key \<open>results\<close>;
  \<^item> \<open>ResultsNotObject\<close>: a dict whose \<open>results\<close> value is not a dict (null, a list, ...);
  \<^item> \<open>Results i s\<close>: a dict whose \<open>results\<close> is a dict, with its \<open>ingestion_status\<close>
    and \<open>status\<close> values.
\<close>

datatype body =
    Unparsable
  | NoResults
  | ResultsNotObject
  | Results "string option" "string option"

datatype remote_outcome =
    HTTPError "int option"
  | OtherException exn
  | Response int body

type_synonym client = "string \<Rightarrow> remote_outcome"

text \<open>
  A path is a parent directory and a final component (\<open>Path.name\<close>). A file holds
  text that is not JSON, a JSON value that is not an object, a JSON object (a cache), or
  it has been opened for writing and not yet written completely.
\<close>

record path =
  parent :: string
  name :: string

datatype content =
    NotJson
  | JsonNonObject
  | JsonObject cache
  | Truncated

datatype fs_op =
    Copy path path
  | OpenW path
  | Dump path cache
  | Replace path path

datatype msg =
    CacheNotFound path
  | UnexpectedShape
  | Scanning nat string
  | Remove404 string string "string option"
  | RemoveStatus "string option" string string "string option"
  | Summary nat nat nat nat
  | DryRunNotice
  | Wrote path path
  | NothingToRemove

text \<open>
  The world the script acts on: the files, what was printed to standard output and to
  standard error, the request paths passed to \<open>client.get\<close>, and the file operations
  completed, each in order. \<open>faults\<close> tells which file operations fail when they are
  attempted, and with which exception: an \<open>OSError\<close>, or the \<open>UnicodeEncodeError\<close> of
  \<open>json.dump(..., ensure_ascii=False)\<close> on a record that holds a lone surrogate (the
  strings of this model have no such character, so the world says for which data the dump
  fails).
\<close>

record world =
  files :: "path \<Rightarrow> content option"
  stdout :: "msg list"
  stderr :: "msg list"
  requests :: "string list"
  fs_log :: "fs_op list"
  faults :: "fs_op \<Rightarrow> exn option"

record struct_time =
  tm_year :: nat
  tm_mon :: nat
  tm_mday :: nat
  tm_hour :: nat
  tm_min :: nat
  tm_sec :: nat

record args =
  cache :: path
  base :: string
  dry_run :: bool

record scan_state =
  to_remove :: "string list"
  checked :: nat
  failed :: nat
  not_found :: nat

subsection \<open>get\_doc\_status\<close>

definition print :: "msg \<Rightarrow> world \<Rightarrow> world" where
  "print m w = w\<lparr>stdout := stdout w @ [m]\<rparr>"

definition eprint :: "msg \<Rightarrow> world \<Rightarrow> world" where
  "eprint m w = w\<lparr>stderr := stderr w @ [m]\<rparr>"

text \<open>
  \<open>doc_status\<close> is what \<open>get_doc_status\<close> makes of the outcome of its one request.
  Only \<open>httpx.HTTPError\<close> is caught, so any other exception of \<open>client.get\<close> leaves the
  function; \<open>AttributeError\<close> is \<open>data.get\<close> on a \<open>results\<close> value that is not a dict,
  which happens after the \<open>try\<close> block and is not caught.
\<close>

definition doc_status :: "remote_outcome \<Rightarrow> exn + (string option \<times> int)" where
  "doc_status r =
     (case r of
        HTTPError resp \<Rightarrow> Inr (None, case resp of None \<Rightarrow> 0 | Some c \<Rightarrow> c)
      | OtherException err \<Rightarrow> Inl err
      | Response status_code b \<Rightarrow>
          if status_code = 404 then Inr (None, 404)
          else if status_code \<ge> 400 then Inr (None, status_code)
          else (case b of
                  Unparsable \<Rightarrow> Inr (None, status_code)
                | NoResults \<Rightarrow> Inr (None, status_code)
                | ResultsNotObject \<Rightarrow> Inl AttributeError
                | Results i s \<Rightarrow> Inr (py_or i s, status_code)))"

definition doc_url :: "string \<Rightarrow> string" where
  "doc_url d = ''/v3/documents/'' @ d"

definition get_doc_status ::
  "client \<Rightarrow> string \<Rightarrow> world \<Rightarrow> (exn + (string option \<times> int)) \<times> world" where
  "get_doc_status client d w =
     (doc_status (client (doc_url d)), w\<lparr>requests := requests w @ [doc_url d]\<rparr>)"

subsection \<open>The scan loop of main\<close>

definition status_failed :: "string option \<Rightarrow> bool" where
  "status_failed status =
     (case status of None \<Rightarrow> False
      | Some s \<Rightarrow> s \<noteq> [] \<and> lower s \<in> {''failed'', ''error''})"

text \<open>\<open>str(entry.get("doc_id") or "").strip()\<close>\<close>

definition stripped_doc_id :: "entry \<Rightarrow> string" where
  "stripped_doc_id e = strip (case doc_id e of None \<Rightarrow> [] | Some x \<Rightarrow> x)"

fun scan :: "client \<Rightarrow> cache \<Rightarrow> scan_state \<Rightarrow> world \<Rightarrow> (exn + scan_state) \<times> world" where
  "scan client [] s w = (Inr s, w)"
| "scan client ((digest, e) # rest) s w =
     (let s1 = s\<lparr>checked := checked s + 1\<rparr>;
          d = stripped_doc_id e
      in if d = [] then scan client rest (s1\<lparr>to_remove := to_remove s1 @ [digest]\<rparr>) w
         else (case get_doc_status client d w of
                 (Inl err, w1) \<Rightarrow> (Inl err, w1)
               | (Inr (status, http_status), w1) \<Rightarrow>
                   if http_status = 404
                   then scan client rest
                          (s1\<lparr>not_found := not_found s1 + 1, to_remove := to_remove s1 @ [digest]\<rparr>)
                          (print (Remove404 digest d (filename e)) w1)
                   else if status_failed status
                   then scan client rest
                          (s1\<lparr>failed := failed s1 + 1, to_remove := to_remove s1 @ [digest]\<rparr>)
                          (print (RemoveStatus status digest d (filename e)) w1)
                   else scan client rest s1 w1))"

subsection \<open>Paths and the time stamp\<close>

text \<open>
  \<open>rfind s c\<close> is \<open>s.rfind(c)\<close> for a one-character \<open>c\<close>: the last index of \<open>c\<close>,
  or \<open>-1\<close>. \<open>suffix\<close> is \<open>PurePath.suffix\<close> computed on the final component, and
  \<open>with_suffix\<close> is \<open>PurePath.with_suffix\<close>, with its \<open>ValueError\<close>s.
\<close>

definition rfind :: "string \<Rightarrow> char \<Rightarrow> int" where
  "rfind s c =
     (case filter (\<lambda>i. s ! i = c) (rev [0..<length s]) of
        [] \<Rightarrow> - 1
      | i # _ \<Rightarrow> int i)"

definition suffix :: "string \<Rightarrow> string" where
  "suffix nm =
     (let i = rfind nm (CHR ''.'')
      in if 0 < i \<and> i < int (length nm) - 1 then drop (nat i) nm else [])"

definition with_suffix :: "path \<Rightarrow> string \<Rightarrow> exn + path" where
  "with_suffix p sfx =
     (if CHR ''/'' \<in> set sfx then Inl (ValueError ''Invalid suffix'')
      else if (sfx \<noteq> [] \<and> take 1 sfx \<noteq> ''.'') \<or> sfx = ''.''
      then Inl (ValueError ''Invalid suffix'')
      else if name p = [] then Inl (ValueError ''empty name'')
      else let old_suffix = suffix (name p)
           in if old_suffix = [] then Inr (p\<lparr>name := name p @ sfx\<rparr>)
              else Inr (p\<lparr>name := take (length (name p) - length old_suffix) (name p) @ sfx\<rparr>))"

text \<open>
  \<open>time.strftime("%Y%m%d-%H%M%S")\<close> on the local time: the year in decimal, the other
  fields as two decimal digits.
\<close>

definition digit :: "nat \<Rightarrow> char" where
  "digit n = ''0123456789'' ! (n mod 10)"

fun dec :: "nat \<Rightarrow> string" where
  "dec n = (if n < 10 then [digit n] else dec (n div 10) @ [digit n])"

definition two :: "nat \<Rightarrow> string" where
  "two n = (if n < 10 then CHR ''0'' # dec n else dec n)"

definition strftime :: "struct_time \<Rightarrow> string" where
  "strftime t =
     dec (tm_year t) @ two (tm_mon t) @ two (tm_mday t) @ ''-'' @
     two (tm_hour t) @ two (tm_min t) @ two (tm_sec t)"

subsection \<open>File operations, load\_cache and save\_cache\<close>

fun apply_op :: "fs_op \<Rightarrow> (path \<Rightarrow> content option) \<Rightarrow> (path \<Rightarrow> content option)" where
  "apply_op (Copy src dst) f = f(dst := f src)"
| "apply_op (OpenW p) f = f(p := Some Truncated)"
| "apply_op (Dump p c) f = f(p := Some (JsonObject c))"
| "apply_op (Replace src dst) f = (f(dst := f src))(src := None)"

text \<open>
  An operation that fails raises its exception; a failed copy or dump may leave its
  destination partly written, a failed open or replace changes nothing.
\<close>

fun apply_failed :: "fs_op \<Rightarrow> (path \<Rightarrow> content option) \<Rightarrow> (path \<Rightarrow> content option)" where
  "apply_failed (Copy src dst) f = f(dst := Some Truncated)"
| "apply_failed (OpenW p) f = f"
| "apply_failed (Dump p c) f = f(p := Some Truncated)"
| "apply_failed (Replace src dst) f = f"

definition do_op :: "fs_op \<Rightarrow> world \<Rightarrow> (exn + unit) \<times> world" where
  "do_op x w =
     (case faults w x of
        None \<Rightarrow> (Inr (), w\<lparr>files := apply_op x (files w), fs_log := fs_log w @ [x]\<rparr>)
      | Some err \<Rightarrow> (Inl err, w\<lparr>files := apply_failed x (files w)\<rparr>))"

fun replay :: "fs_op list \<Rightarrow> (path \<Rightarrow> content option) \<Rightarrow> (path \<Rightarrow> content option)" where
  "replay [] f = f"
| "replay (x # xs) f = replay xs (apply_op x f)"

datatype json = Obj cache | NonObj

definition load_cache :: "path \<Rightarrow> world \<Rightarrow> exn + json" where
  "load_cache p w =
     (case files w p of
        Some (JsonObject c) \<Rightarrow> Inr (Obj c)
      | Some JsonNonObject \<Rightarrow> Inr NonObj
      | Some NotJson \<Rightarrow> Inl JSONDecodeError
      | Some Truncated \<Rightarrow> Inl JSONDecodeError
      | None \<Rightarrow> Inl FileNotFoundError)"

definition save_cache :: "path \<Rightarrow> cache \<Rightarrow> world \<Rightarrow> (exn + unit) \<times> world" where
  "save_cache p c w =
     (case with_suffix p (suffix (name p) @ ''.tmp'') of
        Inl err \<Rightarrow> (Inl err, w)
      | Inr tmp \<Rightarrow>
          (case do_op (OpenW tmp) w of
             (Inl err, w1) \<Rightarrow> (Inl err, w1)
           | (Inr u, w1) \<Rightarrow>
               (case do_op (Dump tmp c) w1 of
                  (Inl err, w2) \<Rightarrow> (Inl err, w2)
                | (Inr u, w2) \<Rightarrow> do_op (Replace tmp p) w2)))"

subsection \<open>main\<close>

text \<open>\<open>cache.pop(digest, None)\<close> for every digest of \<open>to_remove\<close>.\<close>

definition pop :: "string \<Rightarrow> cache \<Rightarrow> cache" where
  "pop digest c = filter (\<lambda>kv. fst kv \<noteq> digest) c"

definition pop_all :: "string list \<Rightarrow> cache \<Rightarrow> cache" where
  "pop_all ds c = fold pop ds c"

definition scan0 :: scan_state where
  "scan0 = \<lparr>to_remove = [], checked = 0, failed = 0, not_found = 0\<rparr>"

definition main :: "args \<Rightarrow> client \<Rightarrow> struct_time \<Rightarrow> world \<Rightarrow> (exn + int) \<times> world" where
  "main a client now w =
     (if files w (cache a) = None then (Inr 2, eprint (CacheNotFound (cache a)) w)
      else case load_cache (cache a) w of
             Inl err \<Rightarrow> (Inl err, w)
           | Inr NonObj \<Rightarrow> (Inr 2, eprint UnexpectedShape w)
           | Inr (Obj c) \<Rightarrow>
               (case scan client c scan0 (print (Scanning (length c) (base a)) w) of
                  (Inl err, w1) \<Rightarrow> (Inl err, w1)
                | (Inr s, w1) \<Rightarrow>
                    (let w2 = print (Summary (checked s) (length (to_remove s))
                                       (failed s) (not_found s)) w1
                     in if dry_run a then (Inr 0, print DryRunNotice w2)
                        else if to_remove s \<noteq> []
                        then (case with_suffix (cache a)
                                     (suffix (name (cache a)) @ ''.bak.'' @ strftime now) of
                                Inl err \<Rightarrow> (Inl err, w2)
                              | Inr backup \<Rightarrow>
                                  (case do_op (Copy (cache a) backup) w2 of
                                     (Inl err, w3) \<Rightarrow> (Inl err, w3)
                                   | (Inr u, w3) \<Rightarrow>
                                       (case save_cache (cache a)
                                               (pop_all (to_remove s) c) w3 of
                                          (Inl err, w4) \<Rightarrow> (Inl err, w4)
                                        | (Inr u, w4) \<Rightarrow>
                                            (Inr 0, print (Wrote (cache a) backup) w4))))
                        else (Inr 0, print NothingToRemove w2))))"

text \<open>
  The script ends with \<open>raise SystemExit(main())\<close>: the process exits with the value
  \<open>main\<close> returns, and with status 1 when an exception leaves \<open>main\<close>.
\<close>

definition exit_status :: "(exn + int) \<Rightarrow> int" where
  "exit_status r = (case r of Inl err \<Rightarrow> 1 | Inr n \<Rightarrow> n)"

subsection \<open>Notions used to state the properties of the script\<close>

text \<open>
  The three reasons for which the scan marks a record, as the specification words them: a
  blank
  \<open>doc_id\<close>; a 404 from the remote (as the status of the response, or of the response an
  \<open>httpx.HTTPError\<close> carries); a reported ingestion status of \<open>failed\<close> or \<open>error\<close> in
  any letter case, read from a response below 400. \<open>aborts\<close> holds of the outcomes that
  end the scan with an exception: an exception of \<open>client.get\<close> that is not an
  \<open>httpx.HTTPError\<close>, and a response below 400 whose \<open>results\<close> is not an object.
\<close>

definition blank :: "entry \<Rightarrow> bool" where
  "blank e = (stripped_doc_id e = [])"

definition outcome :: "client \<Rightarrow> entry \<Rightarrow> remote_outcome" where
  "outcome client e = client (doc_url (stripped_doc_id e))"

definition gone :: "client \<Rightarrow> entry \<Rightarrow> bool" where
  "gone client e =
     (case outcome client e of
        HTTPError resp \<Rightarrow> resp = Some 404
      | OtherException err \<Rightarrow> False
      | Response status_code b \<Rightarrow> status_code = 404)"

definition reported_failed :: "client \<Rightarrow> entry \<Rightarrow> bool" where
  "reported_failed client e =
     (case outcome client e of
        HTTPError resp \<Rightarrow> False
      | OtherException err \<Rightarrow> False
      | Response status_code b \<Rightarrow>
          status_code < 400 \<and>
          (case b of Results i s \<Rightarrow> status_failed (py_or i s) | _ \<Rightarrow> False))"

definition removable :: "client \<Rightarrow> entry \<Rightarrow> bool" where
  "removable client e = (blank e \<or> gone client e \<or> reported_failed client e)"

definition aborts :: "client \<Rightarrow> entry \<Rightarrow> bool" where
  "aborts client e =
     (if blank e then False
      else case outcome client e of
             HTTPError resp \<Rightarrow> False
           | OtherException err \<Rightarrow> True
           | Response status_code b \<Rightarrow> status_code < 400 \<and> b = ResultsNotObject)"

text \<open>
  The effect of one iteration of the loop that does not raise, on the local variables and
  on the world; \<open>scanned_state\<close> and \<open>scanned_world\<close> are a whole scan that does not raise.
\<close>

definition scan_step_state :: "client \<Rightarrow> entry \<Rightarrow> string \<Rightarrow> scan_state \<Rightarrow> scan_state" where
  "scan_step_state client e digest s =
     (if blank e then s\<lparr>checked := checked s + 1, to_remove := to_remove s @ [digest]\<rparr>
      else if gone client e
      then s\<lparr>checked := checked s + 1, not_found := not_found s + 1,
               to_remove := to_remove s @ [digest]\<rparr>
      else if reported_failed client e
      then s\<lparr>checked := checked s + 1, failed := failed s + 1,
               to_remove := to_remove s @ [digest]\<rparr>
      else s\<lparr>checked := checked s + 1\<rparr>)"

definition scan_step_world :: "client \<Rightarrow> entry \<Rightarrow> string \<Rightarrow> world \<Rightarrow> world" where
  "scan_step_world client e digest w =
     (if blank e then w
      else let w1 = w\<lparr>requests := requests w @ [doc_url (stripped_doc_id e)]\<rparr>
           in if gone client e
              then print (Remove404 digest (stripped_doc_id e) (filename e)) w1
              else if reported_failed client e
              then print (RemoveStatus
                            (case doc_status (outcome client e) of
                               Inl err \<Rightarrow> None | Inr r \<Rightarrow> fst r)
                            digest (stripped_doc_id e) (filename e)) w1
              else w1)"

definition scanned_state :: "client \<Rightarrow> cache \<Rightarrow> scan_state" where
  "scanned_state client c = fold (\<lambda>kv. scan_step_state client (snd kv) (fst kv)) c scan0"

definition scanned_world :: "client \<Rightarrow> cache \<Rightarrow> world \<Rightarrow> world" where
  "scanned_world client c w = fold (\<lambda>kv. scan_step_world client (snd kv) (fst kv)) c w"

text \<open>
  \<open>no_abort\<close>: no record of the cache makes the scan raise. \<open>marked\<close>: the digests of
  the removable records, in cache order.
\<close>

definition no_abort :: "client \<Rightarrow> cache \<Rightarrow> bool" where
  "no_abort client c = list_all (\<lambda>kv. \<not> aborts client (snd kv)) c"

definition marked :: "client \<Rightarrow> cache \<Rightarrow> string list" where
  "marked client c = map fst (filter (\<lambda>kv. removable client (snd kv)) c)"

text \<open>
  The format \<open>YYYYMMDD-HHMMSS\<close> of the time stamp, and the local times for which
  \<open>strftime\<close> produces it (four-digit years).
\<close>

definition is_digit :: "char \<Rightarrow> bool" where
  "is_digit c = (c \<in> set ''0123456789'')"

definition stamp_format :: "string \<Rightarrow> bool" where
  "stamp_format ts =
     (length ts = 15 \<and> list_all is_digit (take 8 ts) \<and> ts ! 8 = CHR ''-'' \<and>
      list_all is_digit (drop 9 ts))"

definition valid_time :: "struct_time \<Rightarrow> bool" where
  "valid_time t =
     (1000 \<le> tm_year t \<and> tm_year t \<le> 9999 \<and> 1 \<le> tm_mon t \<and> tm_mon t \<le> 12 \<and>
      1 \<le> tm_mday t \<and> tm_mday t \<le> 31 \<and> tm_hour t \<le> 23 \<and> tm_min t \<le> 59 \<and>
      tm_sec t \<le> 61)"

text \<open>
  The counters of the summary line, the world after a scan that does not raise and its
  summary line, the cache after removal and the paths written.
\<close>

definition count_not_found :: "client \<Rightarrow> cache \<Rightarrow> nat" where
  "count_not_found client c =
     length (filter (\<lambda>kv. \<not> blank (snd kv) \<and> gone client (snd kv)) c)"

definition count_failed :: "client \<Rightarrow> cache \<Rightarrow> nat" where
  "count_failed client c =
     length (filter (\<lambda>kv. \<not> blank (snd kv) \<and> \<not> gone client (snd kv) \<and>
                          reported_failed client (snd kv)) c)"

definition summary :: "client \<Rightarrow> cache \<Rightarrow> msg" where
  "summary client c =
     Summary (length c) (length (marked client c)) (count_failed client c)
       (count_not_found client c)"

definition after_scan :: "args \<Rightarrow> client \<Rightarrow> cache \<Rightarrow> world \<Rightarrow> world" where
  "after_scan a client c w =
     print (summary client c)
       (scanned_world client c (print (Scanning (length c) (base a)) w))"

definition kept :: "client \<Rightarrow> cache \<Rightarrow> cache" where
  "kept client c = filter (\<lambda>kv. fst kv \<notin> set (marked client c)) c"

definition backup_path :: "path \<Rightarrow> struct_time \<Rightarrow> path" where
  "backup_path p now = p\<lparr>name := name p @ ''.bak.'' @ strftime now\<rparr>"

definition tmp_path :: "path \<Rightarrow> path" where
  "tmp_path p = p\<lparr>name := name p @ ''.tmp''\<rparr>"

definition prune_ops :: "path \<Rightarrow> struct_time \<Rightarrow> cache \<Rightarrow> fs_op list" where
  "prune_ops p now c' =
     [Copy p (backup_path p now), OpenW (tmp_path p), Dump (tmp_path p) c',
      Replace (tmp_path p) p]"

text \<open>File operations attempted one after the other, up to the first that fails.\<close>

fun run_ops :: "fs_op list \<Rightarrow> world \<Rightarrow> (exn + unit) \<times> world" where
  "run_ops [] w = (Inr (), w)"
| "run_ops (x # xs) w =
     (case do_op x w of
        (Inl err, w1) \<Rightarrow> (Inl err, w1)
      | (Inr u, w1) \<Rightarrow> run_ops xs w1)"

definition no_fault :: "world \<Rightarrow> fs_op list \<Rightarrow> bool" where
  "no_fault w xs = list_all (\<lambda>x. faults w x = None) xs"

section \<open>context\_chat\_backend/chain/one\_shot.py\<close>

subsection \<open>Data and collaborators\<close>

text \<open>
  A retrieved document carries its text and a metadata dict. \<open>LLMOutput\<close> is the
  result of a query (its field \<open>output\<close> is \<open>output_text\<close> here). An \<open>llm_call\<close> is one call of \<open>llm.invoke\<close> with its three
  arguments; \<open>stop = None\<close> is Python's \<open>None\<close>.

  The collaborators are parameters: \<open>invoke\<close> is \<open>llm.invoke\<close>; \<open>get_pruned_query\<close>
  takes the query, the template and the chunks (the model and the configuration are fixed
  for a call) and may raise; \<open>get_context_docs\<close> stands for loading the vector database
  and searching it; \<open>get_context_chunks\<close> flattens the documents to text chunks.
\<close>

record document =
  page_content :: string
  metadata :: "string \<Rightarrow> string option"

record LLMOutput =
  output_text :: string
  sources :: "string list"

record llm_call =
  prompt :: string
  stop :: "string list option"
  userid :: string

type_synonym llm = "llm_call \<Rightarrow> exn + string"

type_synonym pruner = "string \<Rightarrow> string option \<Rightarrow> string list \<Rightarrow> exn + string"

type_synonym retriever =
  "string \<Rightarrow> string \<Rightarrow> int \<Rightarrow> string option \<Rightarrow> string list option \<Rightarrow> exn + document list"

definition LLM_TEMPLATE :: string where
  "LLM_TEMPLATE =
     ''Answer based only on this context and do not add any imaginative details. '' @
     ''Make sure to use the same language as the question in your answer.'' @
     [CHR 0x0A] @ ''{context}'' @ [CHR 0x0A, CHR 0x0A] @ ''{question}'' @ [CHR 0x0A]"

subsection \<open>process\_query\<close>

text \<open>
  The prompt is the element of the tuple \<open>(query, get_pruned_query(...))\<close> selected by
  \<open>no_ctx_template is not None\<close>. Python builds the tuple before it selects, so the
  helper is called in both cases and an exception of the helper leaves the function.
  The second component of the result is the list of calls made to \<open>llm.invoke\<close>.
\<close>

definition process_query ::
  "string \<Rightarrow> llm \<Rightarrow> pruner \<Rightarrow> string \<Rightarrow> string option \<Rightarrow> string \<Rightarrow>
   (exn + LLMOutput) \<times> llm_call list" where
  "process_query user_id invoke get_pruned_query query no_ctx_template end_separator =
     (let stop_arg = (if end_separator \<noteq> [] then Some [end_separator] else None)
      in case get_pruned_query query no_ctx_template [] of
           Inl err \<Rightarrow> (Inl err, [])
         | Inr pruned \<Rightarrow>
             (let call = \<lparr>prompt = (if no_ctx_template \<noteq> None then pruned else query),
                          stop = stop_arg, userid = user_id\<rparr>
              in case invoke call of
                   Inl err \<Rightarrow> (Inl err, [call])
                 | Inr out \<Rightarrow> (Inr \<lparr>output_text = strip out, sources = []\<rparr>, [call])))"

subsection \<open>process\_context\_query\<close>

text \<open>
  \<open>unique_sources\<close> is \<open>list({source for d in context_docs if (source :=
  d.metadata.get('source'))})\<close>: the truthy \<open>source\<close> values, each once. Python leaves
  the order of a set unspecified; the model lists them by first occurrence, and the
  theorems below do not depend on the order.
\<close>

definition truthy_sources :: "document list \<Rightarrow> string list" where
  "truthy_sources docs =
     concat (map (\<lambda>d. case metadata d ''source'' of
                         None \<Rightarrow> []
                       | Some s \<Rightarrow> if s \<noteq> [] then [s] else []) docs)"

definition unique_sources :: "document list \<Rightarrow> string list" where
  "unique_sources docs = remdups (truthy_sources docs)"

definition process_context_query ::
  "string \<Rightarrow> retriever \<Rightarrow> (document list \<Rightarrow> string list) \<Rightarrow> llm \<Rightarrow> pruner \<Rightarrow> string \<Rightarrow>
   int \<Rightarrow> string option \<Rightarrow> string list option \<Rightarrow> string option \<Rightarrow> string \<Rightarrow>
   (exn + LLMOutput) \<times> llm_call list" where
  "process_context_query user_id get_context_docs get_context_chunks invoke get_pruned_query
       query ctx_limit scope_type scope_list template end_separator =
     (case get_context_docs user_id query ctx_limit scope_type scope_list of
        Inl err \<Rightarrow> (Inl err, [])
      | Inr context_docs \<Rightarrow>
          if length context_docs = 0
          then (Inl (ContextException
                      ''No documents retrieved, please index a few documents first''), [])
          else (let context_chunks = get_context_chunks context_docs;
                    tmpl = (if truthy template then template else Some LLM_TEMPLATE)
                in case get_pruned_query query tmpl context_chunks of
                     Inl err \<Rightarrow> (Inl err, [])
                   | Inr pruned \<Rightarrow>
                       (let call = \<lparr>prompt = pruned, stop = Some [end_separator],
                                    userid = user_id\<rparr>
                        in case invoke call of
                             Inl err \<Rightarrow> (Inl err, [call])
                           | Inr out \<Rightarrow>
                               (Inr \<lparr>output_text = strip out,
                                     sources = unique_sources context_docs\<rparr>, [call]))))"

subsection \<open>The prompt builder of the specification\<close>

text \<open>
  Modelled from the spec: the query-pruning helper \<open>get_pruned_query\<close>
  (\<open>chain/query_proc.py\<close>) is imported by \<open>one_shot.py\<close> but is not among the sources.
  The specification describes it so: chunks are included in their given order until the
  token count of query, template and chunks would exceed the model's context limit; the
  chunks from that point on are dropped; a query and template that exceed the limit alone
  raise \<open>ContextTooSmallError\<close>. \<open>measure_tokens\<close> is the token count of a text and \<open>limit\<close>
  the context limit of the model. The result is the list of chunks that go into the
  prompt.
\<close>

fun include_chunks :: "(string \<Rightarrow> nat) \<Rightarrow> nat \<Rightarrow> nat \<Rightarrow> string list \<Rightarrow> string list" where
  "include_chunks measure_tokens limit used [] = []"
| "include_chunks measure_tokens limit used (c # cs) =
     (if used + measure_tokens c > limit then []
      else c # include_chunks measure_tokens limit (used + measure_tokens c) cs)"

definition prompt_builder ::
  "(string \<Rightarrow> nat) \<Rightarrow> nat \<Rightarrow> string \<Rightarrow> string \<Rightarrow> string list \<Rightarrow> exn + string list" where
  "prompt_builder measure_tokens limit template query chunks =
     (if measure_tokens query + measure_tokens template > limit then Inl ContextTooSmallError
      else Inr (include_chunks measure_tokens limit (measure_tokens query + measure_tokens template) chunks))"

definition tokens :: "(string \<Rightarrow> nat) \<Rightarrow> string \<Rightarrow> string \<Rightarrow> string list \<Rightarrow> nat" where
  "tokens measure_tokens template query chunks =
     measure_tokens query + measure_tokens template + sum_list (map measure_tokens chunks)"

section \<open>Example inputs\<close>

text \<open>Concrete collaborators, documents, files and clocks on which the theorems are run.\<close>

definition doc_a :: document where
  "doc_a = \<lparr>page_content = ''alpha'', metadata = [''source'' \<mapsto> ''a.txt'']\<rparr>"

definition doc_blank :: document where
  "doc_blank = \<lparr>page_content = ''beta'', metadata = [''source'' \<mapsto> []]\<rparr>"

definition fixed_docs :: "document list \<Rightarrow> retriever" where
  "fixed_docs docs u q n st sl = Inr docs"

definition page_contents :: "document list \<Rightarrow> string list" where
  "page_contents docs = map page_content docs"

definition echo_llm :: llm where
  "echo_llm c = Inr (prompt c)"

definition join_pruner :: pruner where
  "join_pruner q t cs = Inr (concat cs @ q)"

definition template_pruner :: pruner where
  "template_pruner q t cs = Inr ((case t of None \<Rightarrow> [] | Some x \<Rightarrow> x) @ q)"

definition failing_pruner :: pruner where
  "failing_pruner q t cs = Inl (ValueError ''Context length is too small'')"

definition cache_path0 :: path where
  "cache_path0 = \<lparr>parent = ''/data/'', name = ''r2r_upsert_cache.json''\<rparr>"

definition entry_x1 :: entry where
  "entry_x1 = \<lparr>doc_id = Some ''x1'', filename = Some ''a.txt''\<rparr>"

definition entry_blank :: entry where
  "entry_blank = \<lparr>doc_id = Some [], filename = Some ''b.txt''\<rparr>"

definition entry_x2 :: entry where
  "entry_x2 = \<lparr>doc_id = Some ''x2'', filename = Some ''c.txt''\<rparr>"

definition cache0 :: cache where
  "cache0 = [(''d1'', entry_x1), (''d2'', entry_blank), (''d3'', entry_x2)]"

definition client0 :: client where
  "client0 url =
     (if url = ''/v3/documents/x1'' then Response 404 Unparsable
      else Response 200 (Results (Some ''success'') None))"

definition client_list :: client where
  "client_list url = Response 200 ResultsNotObject"

definition world_of :: "content \<Rightarrow> world" where
  "world_of x = \<lparr>files = [cache_path0 \<mapsto> x], stdout = [], stderr = [], requests = [],
                 fs_log = [], faults = (\<lambda>x. None)\<rparr>"

definition cache1 :: cache where
  "cache1 = [(''d2'', entry_blank), (''d1'', entry_x1)]"

text \<open>
  A record whose \<open>doc_id\<close> holds a control character, and a client that refuses such a
  request path with \<open>httpx.InvalidURL\<close>; a world in which every \<open>json.dump\<close> fails.
\<close>

definition entry_ctl :: entry where
  "entry_ctl = \<lparr>doc_id = Some [CHR ''a'', CHR 0x01, CHR ''b''], filename = Some ''e.txt''\<rparr>"

definition cache2 :: cache where
  "cache2 = [(''d2'', entry_blank), (''d4'', entry_ctl)]"

definition client_strict :: client where
  "client_strict url =
     (if list_ex (\<lambda>ch. (of_char ch :: nat) < 32 \<or> (of_char ch :: nat) = 127) url
      then OtherException InvalidURL else client0 url)"

definition dump_fails :: "fs_op \<Rightarrow> exn option" where
  "dump_fails x = (case x of Dump p c \<Rightarrow> Some UnicodeEncodeError | _ \<Rightarrow> None)"

definition time0 :: struct_time where
  "time0 = \<lparr>tm_year = 2024, tm_mon = 3, tm_mday = 9, tm_hour = 14, tm_min = 5, tm_sec = 7\<rparr>"

definition args0 :: "bool \<Rightarrow> args" where
  "args0 dry = \<lparr>cache = cache_path0, base = ''http://127.0.0.1:7272'', dry_run = dry\<rparr>"

section \<open>Properties of prune\_r2r\_upsert\_cache.py\<close>

subsection \<open>The scan\<close>

lemma doc_status_cases:
  "\<not> blank e \<Longrightarrow> \<not> aborts client e \<Longrightarrow>
   \<exists>st code. doc_status (outcome client e) = Inr (st, code) \<and>
     (code = 404 \<longleftrightarrow> gone client e) \<and>
     (code \<noteq> 404 \<longrightarrow> (status_failed st \<longleftrightarrow> reported_failed client e))"
  by (auto simp: doc_status_def aborts_def gone_def reported_failed_def status_failed_def
      split: remote_outcome.splits body.splits option.splits)

lemma doc_status_aborts:
  "\<not> blank e \<Longrightarrow> aborts client e \<Longrightarrow> \<exists>err. doc_status (outcome client e) = Inl err"
  by (auto simp: doc_status_def aborts_def split: remote_outcome.splits body.splits if_splits)

lemma scan_Cons_ok:
  assumes "\<not> aborts client e"
  shows "scan client ((digest, e) # rest) s w =
         scan client rest (scan_step_state client e digest s) (scan_step_world client e digest w)"
proof (cases "blank e")
  case True
  then show ?thesis
    by (simp add: blank_def scan_step_state_def scan_step_world_def)
next
  case False
  from doc_status_cases[OF False assms] obtain st code where
    d: "doc_status (outcome client e) = Inr (st, code)"
    and g: "(code = 404) = gone client e"
    and f: "code \<noteq> 404 \<longrightarrow> status_failed st = reported_failed client e"
    by blast
  from False have nb: "stripped_doc_id e \<noteq> []" by (simp add: blank_def)
  from d have d': "doc_status (client (doc_url (stripped_doc_id e))) = Inr (st, code)"
    by (simp add: outcome_def)
  show ?thesis
  proof (cases "code = 404")
    case True
    with g have "gone client e" by simp
    with True False nb d d' show ?thesis
      by (simp add: scan_step_state_def scan_step_world_def get_doc_status_def Let_def)
  next
    case c: False
    with g have ng: "\<not> gone client e" by simp
    from c f have f': "status_failed st = reported_failed client e" by simp
    with c ng False nb d d' show ?thesis
      by (simp add: scan_step_state_def scan_step_world_def get_doc_status_def Let_def)
  qed
qed

lemma scan_Cons_abort:
  assumes "aborts client e"
  shows "\<exists>err. scan client ((digest, e) # rest) s w =
           (Inl err, w\<lparr>requests := requests w @ [doc_url (stripped_doc_id e)]\<rparr>)"
proof -
  from assms have nb: "\<not> blank e" by (auto simp: aborts_def split: if_splits)
  from doc_status_aborts[OF nb assms] obtain err where
    "doc_status (client (doc_url (stripped_doc_id e))) = Inl err"
    by (auto simp: outcome_def)
  with nb show ?thesis
    by (simp add: blank_def get_doc_status_def Let_def)
qed

lemma scan_ok:
  "no_abort client c \<Longrightarrow>
   scan client c s w =
     (Inr (fold (\<lambda>kv. scan_step_state client (snd kv) (fst kv)) c s),
      fold (\<lambda>kv. scan_step_world client (snd kv) (fst kv)) c w)"
proof (induction c arbitrary: s w)
  case Nil
  then show ?case by simp
next
  case (Cons kv c)
  obtain digest e where kv: "kv = (digest, e)" by (cases kv)
  from Cons.prems kv have na: "\<not> aborts client e" and rest: "no_abort client c"
    by (simp_all add: no_abort_def)
  show ?case
    unfolding kv scan_Cons_ok[OF na] using Cons.IH[OF rest] by simp
qed

lemma scan_aborted:
  "\<not> no_abort client c \<Longrightarrow>
   \<exists>err w'. scan client c s w = (Inl err, w') \<and> files w' = files w \<and>
        fs_log w' = fs_log w \<and> stderr w' = stderr w"
proof (induction c arbitrary: s w)
  case Nil
  then show ?case by (simp add: no_abort_def)
next
  case (Cons kv c)
  obtain digest e where kv: "kv = (digest, e)" by (cases kv)
  show ?case
  proof (cases "aborts client e")
    case True
    from scan_Cons_abort[OF True, of digest c s w] show ?thesis unfolding kv by auto
  next
    case False
    with Cons.prems kv have rest: "\<not> no_abort client c" by (simp add: no_abort_def)
    have frame: "files (scan_step_world client e digest w) = files w \<and>
                 fs_log (scan_step_world client e digest w) = fs_log w \<and>
                 stderr (scan_step_world client e digest w) = stderr w"
      by (simp add: scan_step_world_def print_def Let_def)
    from Cons.IH[OF rest, of "scan_step_state client e digest s" "scan_step_world client e digest w"]
    show ?thesis unfolding kv scan_Cons_ok[OF False] using frame by auto
  qed
qed

lemma fold_state_to_remove:
  "to_remove (fold (\<lambda>kv. scan_step_state client (snd kv) (fst kv)) c s) =
   to_remove s @ marked client c"
  by (induction c arbitrary: s) (auto simp: marked_def scan_step_state_def removable_def)

lemma fold_state_checked:
  "checked (fold (\<lambda>kv. scan_step_state client (snd kv) (fst kv)) c s) = checked s + length c"
  by (induction c arbitrary: s) (auto simp: scan_step_state_def)

lemma fold_state_not_found:
  "not_found (fold (\<lambda>kv. scan_step_state client (snd kv) (fst kv)) c s) =
   not_found s + length (filter (\<lambda>kv. \<not> blank (snd kv) \<and> gone client (snd kv)) c)"
  by (induction c arbitrary: s) (auto simp: scan_step_state_def)

lemma fold_state_failed:
  "failed (fold (\<lambda>kv. scan_step_state client (snd kv) (fst kv)) c s) =
   failed s + length (filter (\<lambda>kv. \<not> blank (snd kv) \<and> \<not> gone client (snd kv) \<and>
                               reported_failed client (snd kv)) c)"
  by (induction c arbitrary: s) (auto simp: scan_step_state_def)

lemma fold_world_frame:
  "files (fold (\<lambda>kv. scan_step_world client (snd kv) (fst kv)) c w) = files w \<and>
   fs_log (fold (\<lambda>kv. scan_step_world client (snd kv) (fst kv)) c w) = fs_log w \<and>
   stderr (fold (\<lambda>kv. scan_step_world client (snd kv) (fst kv)) c w) = stderr w \<and>
   faults (fold (\<lambda>kv. scan_step_world client (snd kv) (fst kv)) c w) = faults w"
  by (induction c arbitrary: w) (auto simp: scan_step_world_def print_def Let_def)

lemma fold_world_requests:
  "requests (fold (\<lambda>kv. scan_step_world client (snd kv) (fst kv)) c w) =
   requests w @ map (\<lambda>kv. doc_url (stripped_doc_id (snd kv)))
                  (filter (\<lambda>kv. \<not> blank (snd kv)) c)"
  by (induction c arbitrary: w) (auto simp: scan_step_world_def print_def Let_def)

lemma fold_world_stdout_unmarked:
  "marked client c = [] \<Longrightarrow>
   stdout (fold (\<lambda>kv. scan_step_world client (snd kv) (fst kv)) c w) = stdout w"
  by (induction c arbitrary: w)
     (auto simp: scan_step_world_def print_def Let_def marked_def removable_def split: if_splits)

subsection \<open>Paths and the time stamp\<close>

lemma suffix_cases:
  "suffix nm = [] \<or> (\<exists>k. k < length nm \<and> suffix nm = drop k nm \<and> nm ! k = CHR ''.'')"
proof (cases "filter (\<lambda>i. nm ! i = CHR ''.'') (rev [0..<length nm])")
  case Nil
  then show ?thesis by (simp add: suffix_def rfind_def)
next
  case (Cons i rest)
  then have "i \<in> set (filter (\<lambda>i. nm ! i = CHR ''.'') (rev [0..<length nm]))" by simp
  then have i: "i < length nm" "nm ! i = CHR ''.''" by auto
  with Cons show ?thesis by (auto simp: suffix_def rfind_def Let_def)
qed

lemma suffix_set: "set (suffix nm) \<subseteq> set nm"
  using suffix_cases[of nm] by (auto dest: in_set_dropD)

lemma suffix_take1: "suffix nm \<noteq> [] \<Longrightarrow> take 1 (suffix nm) = ''.''"
proof -
  assume a: "suffix nm \<noteq> []"
  with suffix_cases[of nm] obtain k where k: "k < length nm" "suffix nm = drop k nm"
    "nm ! k = CHR ''.''" by blast
  then have "drop k nm = nm ! k # drop (Suc k) nm" by (metis Cons_nth_drop_Suc)
  with k show ?thesis by simp
qed

lemma suffix_restore: "take (length nm - length (suffix nm)) nm @ suffix nm = nm"
  using suffix_cases[of nm] by auto

lemma with_suffix_Inr:
  "with_suffix p (suffix (name p) @ x) = Inr q \<Longrightarrow> q = p\<lparr>name := name p @ x\<rparr>"
  using suffix_restore[of "name p"]
  by (auto simp: with_suffix_def Let_def split: if_splits)

lemma with_suffix_ok:
  "CHR ''/'' \<notin> set sfx \<Longrightarrow> take 1 sfx = ''.'' \<Longrightarrow> sfx \<noteq> ''.'' \<Longrightarrow> name p \<noteq> [] \<Longrightarrow>
   \<exists>q. with_suffix p sfx = Inr q"
  by (auto simp: with_suffix_def Let_def)

lemma with_suffix_append:
  assumes "name p \<noteq> []" "CHR ''/'' \<notin> set (name p)" "CHR ''/'' \<notin> set x"
    "take 1 x = ''.''" "1 < length x"
  shows "with_suffix p (suffix (name p) @ x) = Inr (p\<lparr>name := name p @ x\<rparr>)"
proof -
  let ?sfx = "suffix (name p) @ x"
  from assms(2,3) suffix_set[of "name p"] have a: "CHR ''/'' \<notin> set ?sfx" by auto
  have b: "take 1 ?sfx = ''.''"
    using assms(4) suffix_take1[of "name p"] by (cases "suffix (name p)") auto
  have c: "?sfx \<noteq> ''.''"
  proof
    assume "?sfx = ''.''"
    then have "length ?sfx = length ''.''" by (rule arg_cong)
    with assms(5) show False by simp
  qed
  from with_suffix_ok[OF a b c assms(1)] obtain q where q: "with_suffix p ?sfx = Inr q" ..
  from with_suffix_Inr[OF q] q show ?thesis by simp
qed

lemma digit_is_digit: "is_digit (digit n)"
proof -
  have "n mod 10 < length ''0123456789''" by simp
  then have "''0123456789'' ! (n mod 10) \<in> set ''0123456789''" by (rule nth_mem)
  then show ?thesis by (simp only: is_digit_def digit_def)
qed

lemma dec_small: "n < 10 \<Longrightarrow> dec n = [digit n]"
  by (subst dec.simps) simp

lemma dec_large: "10 \<le> n \<Longrightarrow> dec n = dec (n div 10) @ [digit n]"
  by (subst dec.simps) simp

lemma dec_digits: "list_all is_digit (dec n)"
proof (induction n rule: dec.induct)
  case (1 n)
  show ?case
  proof (cases "n < 10")
    case True
    then show ?thesis by (simp add: dec_small digit_is_digit del: dec.simps)
  next
    case False
    with 1 show ?thesis by (simp add: dec_large digit_is_digit del: dec.simps)
  qed
qed

lemma two_length: "n < 100 \<Longrightarrow> length (two n) = 2"
proof (cases "n < 10")
  case True
  then show ?thesis by (simp add: two_def dec_small del: dec.simps)
next
  case False
  assume "n < 100"
  with False have "n div 10 < 10" "10 \<le> n" by auto
  then show ?thesis using False by (simp add: two_def dec_large dec_small del: dec.simps)
qed

lemma two_digits: "list_all is_digit (two n)"
  using dec_digits[of n] by (simp add: two_def is_digit_def del: dec.simps)

lemma dec_length4: "1000 \<le> n \<Longrightarrow> n \<le> 9999 \<Longrightarrow> length (dec n) = 4"
proof -
  assume a: "1000 \<le> n" "n \<le> 9999"
  then have "10 \<le> n" "10 \<le> n div 10" "10 \<le> n div 10 div 10" "n div 10 div 10 div 10 < 10"
    by auto
  then show ?thesis by (simp add: dec_large dec_small del: dec.simps)
qed

lemma digit_not_slash: "is_digit c \<Longrightarrow> c \<noteq> CHR ''/''"
  by (auto simp: is_digit_def)

lemma digits_no_slash: "list_all is_digit xs \<Longrightarrow> CHR ''/'' \<notin> set xs"
  by (induction xs) (auto dest: digit_not_slash)

lemma strftime_no_slash: "CHR ''/'' \<notin> set (strftime t)"
proof -
  have "CHR ''/'' \<notin> set (dec (tm_year t))" by (rule digits_no_slash[OF dec_digits])
  moreover have "\<And>n. CHR ''/'' \<notin> set (two n)" by (rule digits_no_slash[OF two_digits])
  ultimately show ?thesis
    unfolding strftime_def by simp
qed

lemma strftime_format: "valid_time t \<Longrightarrow> stamp_format (strftime t)"
proof -
  assume v: "valid_time t"
  define y where "y = dec (tm_year t)"
  define r where "r = two (tm_mon t) @ two (tm_mday t)"
  define z where "z = two (tm_hour t) @ two (tm_min t) @ two (tm_sec t)"
  from v have ly: "length y = 4" by (simp add: y_def valid_time_def dec_length4 del: dec.simps)
  from v have lr: "length r = 4" by (simp add: r_def valid_time_def two_length)
  from v have lz: "length z = 6" by (simp add: z_def valid_time_def two_length)
  have dy: "list_all is_digit y" by (simp add: y_def dec_digits del: dec.simps)
  have dr: "list_all is_digit r" by (simp add: r_def two_digits)
  have dz: "list_all is_digit z" by (simp add: z_def two_digits)
  have s: "strftime t = (y @ r) @ CHR ''-'' # z"
    by (simp add: strftime_def y_def r_def z_def del: dec.simps)
  from ly lr have l8: "length (y @ r) = 8" by simp
  have t8: "take 8 (strftime t) = y @ r" unfolding s using l8 by simp
  have d9: "drop 9 (strftime t) = z" unfolding s using l8 by simp
  have "((y @ r) @ CHR ''-'' # z) ! length (y @ r) = CHR ''-''" by (rule nth_append_length)
  then have n8: "strftime t ! 8 = CHR ''-''" unfolding s l8 .
  have len: "length (strftime t) = 15" unfolding s using l8 lz by simp
  show ?thesis
    unfolding stamp_format_def using len t8 d9 n8 dy dr dz by simp
qed

subsection \<open>The runs of main\<close>

lemma scanned_state_simps:
  "to_remove (scanned_state client c) = marked client c"
  "checked (scanned_state client c) = length c"
  "failed (scanned_state client c) = count_failed client c"
  "not_found (scanned_state client c) = count_not_found client c"
  by (simp_all add: scanned_state_def scan0_def fold_state_to_remove fold_state_checked
      fold_state_failed fold_state_not_found count_failed_def count_not_found_def)

lemma scanned_world_simps:
  "files (scanned_world client c w) = files w"
  "fs_log (scanned_world client c w) = fs_log w"
  "stderr (scanned_world client c w) = stderr w"
  "faults (scanned_world client c w) = faults w"
  "requests (scanned_world client c w) =
     requests w @ map (\<lambda>kv. doc_url (stripped_doc_id (snd kv)))
                    (filter (\<lambda>kv. \<not> blank (snd kv)) c)"
  by (simp_all add: scanned_world_def fold_world_frame fold_world_requests)

lemma scanned_world_stdout:
  "\<exists>lines. stdout (scanned_world client c w) = stdout w @ lines"
  unfolding scanned_world_def
proof (induction c arbitrary: w)
  case Nil
  then show ?case by simp
next
  case (Cons kv c)
  have "\<exists>l. stdout (scan_step_world client (snd kv) (fst kv) w) = stdout w @ l"
    by (simp add: scan_step_world_def print_def Let_def)
  then obtain l where l: "stdout (scan_step_world client (snd kv) (fst kv) w) = stdout w @ l" ..
  from Cons.IH[of "scan_step_world client (snd kv) (fst kv) w"] obtain l' where
    "stdout (fold (\<lambda>kv. scan_step_world client (snd kv) (fst kv)) c
        (scan_step_world client (snd kv) (fst kv) w)) =
     stdout (scan_step_world client (snd kv) (fst kv) w) @ l'" ..
  with l show ?case by simp
qed

lemma scanned_world_stdout_unmarked:
  "marked client c = [] \<Longrightarrow> stdout (scanned_world client c w) = stdout w"
  by (simp add: scanned_world_def fold_world_stdout_unmarked)

lemma scan_scanned:
  "no_abort client c \<Longrightarrow>
   scan client c scan0 w = (Inr (scanned_state client c), scanned_world client c w)"
  by (simp add: scan_ok scanned_state_def scanned_world_def)

lemma pop_all_filter: "pop_all ds c = filter (\<lambda>kv. fst kv \<notin> set ds) c"
  unfolding pop_all_def
proof (induction ds arbitrary: c)
  case Nil
  then show ?case by simp
next
  case (Cons d ds)
  have "fold pop (d # ds) c = fold pop ds (pop d c)" by simp
  also have "\<dots> = filter (\<lambda>kv. fst kv \<notin> set ds) (pop d c)" by (rule Cons.IH)
  also have "\<dots> = filter (\<lambda>kv. fst kv \<notin> set (d # ds)) c"
    by (auto simp: pop_def intro: filter_cong)
  finally show ?case .
qed

lemma main_missing:
  "files w (cache a) = None \<Longrightarrow>
   main a client now w = (Inr 2, eprint (CacheNotFound (cache a)) w)"
  by (simp add: main_def)

lemma main_not_json:
  "files w (cache a) = Some NotJson \<Longrightarrow> main a client now w = (Inl JSONDecodeError, w)"
  by (simp add: main_def load_cache_def)

lemma main_truncated:
  "files w (cache a) = Some Truncated \<Longrightarrow> main a client now w = (Inl JSONDecodeError, w)"
  by (simp add: main_def load_cache_def)

lemma main_non_object:
  "files w (cache a) = Some JsonNonObject \<Longrightarrow>
   main a client now w = (Inr 2, eprint UnexpectedShape w)"
  by (simp add: main_def load_cache_def)

lemma main_aborted:
  assumes "files w (cache a) = Some (JsonObject c)" "\<not> no_abort client c"
  shows "\<exists>err w'. main a client now w = (Inl err, w') \<and> files w' = files w \<and>
              fs_log w' = fs_log w"
proof -
  from scan_aborted[OF assms(2), of scan0 "print (Scanning (length c) (base a)) w"]
  obtain err w' where "scan client c scan0 (print (Scanning (length c) (base a)) w) =
      (Inl err, w')" "files w' = files w" "fs_log w' = fs_log w"
    by (auto simp: print_def)
  with assms(1) show ?thesis by (simp add: main_def load_cache_def)
qed

lemma after_scan_simps:
  "files (after_scan a client c w) = files w"
  "fs_log (after_scan a client c w) = fs_log w"
  "stderr (after_scan a client c w) = stderr w"
  "faults (after_scan a client c w) = faults w"
  by (simp_all add: after_scan_def print_def scanned_world_simps)

lemma after_scan_stdout:
  "\<exists>lines. stdout (after_scan a client c w) =
     stdout w @ Scanning (length c) (base a) # lines @ [summary client c]"
proof -
  from scanned_world_stdout[of client c "print (Scanning (length c) (base a)) w"]
  obtain lines where "stdout (scanned_world client c (print (Scanning (length c) (base a)) w))
      = stdout (print (Scanning (length c) (base a)) w) @ lines" ..
  then show ?thesis by (simp add: after_scan_def print_def)
qed

lemma main_dry:
  assumes "files w (cache a) = Some (JsonObject c)" "no_abort client c" "dry_run a"
  shows "main a client now w = (Inr 0, print DryRunNotice (after_scan a client c w))"
  using assms
  by (simp add: main_def load_cache_def scan_scanned scanned_state_simps summary_def
      after_scan_def)

lemma main_nothing:
  assumes "files w (cache a) = Some (JsonObject c)" "no_abort client c" "\<not> dry_run a"
    "marked client c = []"
  shows "main a client now w = (Inr 0, print NothingToRemove (after_scan a client c w))"
  using assms
  by (simp add: main_def load_cache_def scan_scanned scanned_state_simps summary_def
      after_scan_def)

lemma pop_all_marked: "pop_all (marked client c) c = kept client c"
  by (simp add: pop_all_filter kept_def)

lemma save_cache_run_ops:
  "with_suffix p (suffix (name p) @ ''.tmp'') = Inr tmp \<Longrightarrow>
   save_cache p c' w = run_ops [OpenW tmp, Dump tmp c', Replace tmp p] w"
  by (simp add: save_cache_def split: prod.split sum.split)

lemma main_prune_raw:
  assumes "files w (cache a) = Some (JsonObject c)" "no_abort client c" "\<not> dry_run a"
    "marked client c \<noteq> []"
    "with_suffix (cache a) (suffix (name (cache a)) @ ''.bak.'' @ strftime now) = Inr backup"
    "with_suffix (cache a) (suffix (name (cache a)) @ ''.tmp'') = Inr tmp"
  shows "main a client now w =
         (case run_ops [Copy (cache a) backup, OpenW tmp, Dump tmp (kept client c),
                        Replace tmp (cache a)] (after_scan a client c w) of
            (Inl err, w') \<Rightarrow> (Inl err, w')
          | (Inr u, w') \<Rightarrow> (Inr 0, print (Wrote (cache a) backup) w'))"
proof -
  have "main a client now w =
        (case do_op (Copy (cache a) backup) (after_scan a client c w) of
           (Inl err, w3) \<Rightarrow> (Inl err, w3)
         | (Inr u, w3) \<Rightarrow>
             (case save_cache (cache a) (kept client c) w3 of
                (Inl err, w4) \<Rightarrow> (Inl err, w4)
              | (Inr u, w4) \<Rightarrow> (Inr 0, print (Wrote (cache a) backup) w4)))"
    using assms(1-5)
    by (simp add: main_def load_cache_def scan_scanned scanned_state_simps summary_def
        pop_all_marked after_scan_def split: prod.split sum.split)
  then show ?thesis
    by (simp add: save_cache_run_ops[OF assms(6)] split: prod.split sum.split)
qed

lemma main_prune_backup_error:
  assumes "files w (cache a) = Some (JsonObject c)" "no_abort client c" "\<not> dry_run a"
    "marked client c \<noteq> []"
    "with_suffix (cache a) (suffix (name (cache a)) @ ''.bak.'' @ strftime now) = Inl err"
  shows "fst (main a client now w) = Inl err"
  using assms
  by (simp add: main_def load_cache_def scan_scanned scanned_state_simps)

lemma main_prune_tmp_error:
  assumes "files w (cache a) = Some (JsonObject c)" "no_abort client c" "\<not> dry_run a"
    "marked client c \<noteq> []"
    "with_suffix (cache a) (suffix (name (cache a)) @ ''.bak.'' @ strftime now) = Inr backup"
    "with_suffix (cache a) (suffix (name (cache a)) @ ''.tmp'') = Inl err"
  shows "\<exists>err'. fst (main a client now w) = Inl err'"
  using assms
  by (simp add: main_def load_cache_def scan_scanned scanned_state_simps save_cache_def
      split: prod.split sum.split)

lemma path_results:
  assumes "name p \<noteq> []" "CHR ''/'' \<notin> set (name p)"
  shows "with_suffix p (suffix (name p) @ ''.bak.'' @ strftime now) = Inr (backup_path p now)"
    and "with_suffix p (suffix (name p) @ ''.tmp'') = Inr (tmp_path p)"
proof -
  show "with_suffix p (suffix (name p) @ ''.bak.'' @ strftime now) = Inr (backup_path p now)"
    unfolding backup_path_def
    using with_suffix_append[OF assms, of "''.bak.'' @ strftime now"] strftime_no_slash[of now]
    by simp
  show "with_suffix p (suffix (name p) @ ''.tmp'') = Inr (tmp_path p)"
    unfolding tmp_path_def
    using with_suffix_append[OF assms, of "''.tmp''"] by simp
qed

lemma main_prune:
  assumes "files w (cache a) = Some (JsonObject c)" "no_abort client c" "\<not> dry_run a"
    "marked client c \<noteq> []" "name (cache a) \<noteq> []" "CHR ''/'' \<notin> set (name (cache a))"
  shows "main a client now w =
         (case run_ops (prune_ops (cache a) now (kept client c)) (after_scan a client c w) of
            (Inl err, w') \<Rightarrow> (Inl err, w')
          | (Inr u, w') \<Rightarrow> (Inr 0, print (Wrote (cache a) (backup_path (cache a) now)) w'))"
  unfolding prune_ops_def
  by (rule main_prune_raw[OF assms(1-4) path_results[OF assms(5,6)]])

subsection \<open>Sequences of file operations\<close>

lemma do_op_ok:
  "faults w x = None \<Longrightarrow>
   do_op x w = (Inr (), w\<lparr>files := apply_op x (files w), fs_log := fs_log w @ [x]\<rparr>)"
  by (simp add: do_op_def)

lemma do_op_failed:
  "faults w x = Some err \<Longrightarrow> do_op x w = (Inl err, w\<lparr>files := apply_failed x (files w)\<rparr>)"
  by (simp add: do_op_def)

lemma run_ops_ok:
  "no_fault w xs \<Longrightarrow>
   run_ops xs w = (Inr (), w\<lparr>files := replay xs (files w), fs_log := fs_log w @ xs\<rparr>)"
proof (induction xs arbitrary: w)
  case Nil
  then show ?case by simp
next
  case (Cons x xs)
  from Cons.prems have x: "faults w x = None" and rest: "no_fault w xs"
    by (simp_all add: no_fault_def)
  let ?w1 = "w\<lparr>files := apply_op x (files w), fs_log := fs_log w @ [x]\<rparr>"
  from rest have "no_fault ?w1 xs" by (simp add: no_fault_def)
  from Cons.IH[OF this] show ?case by (simp add: do_op_ok[OF x])
qed

lemma run_ops_failed:
  "\<not> no_fault w xs \<Longrightarrow> \<exists>err w'. run_ops xs w = (Inl err, w')"
proof (induction xs arbitrary: w)
  case Nil
  then show ?case by (simp add: no_fault_def)
next
  case (Cons x xs)
  show ?case
  proof (cases "faults w x")
    case None
    let ?w1 = "w\<lparr>files := apply_op x (files w), fs_log := fs_log w @ [x]\<rparr>"
    from Cons.prems None have "\<not> no_fault ?w1 xs" by (simp add: no_fault_def)
    from Cons.IH[OF this] show ?thesis by (simp add: do_op_ok[OF None])
  next
    case (Some err)
    then show ?thesis by (simp add: do_op_failed)
  qed
qed

lemma run_ops_Inr:
  assumes "run_ops xs w = (Inr u, w')"
  shows "no_fault w xs" "w' = w\<lparr>files := replay xs (files w), fs_log := fs_log w @ xs\<rparr>"
proof -
  show nf: "no_fault w xs"
  proof (rule ccontr)
    assume "\<not> no_fault w xs"
    from run_ops_failed[OF this] assms show False by auto
  qed
  from run_ops_ok[OF nf] assms
  show "w' = w\<lparr>files := replay xs (files w), fs_log := fs_log w @ xs\<rparr>" by simp
qed

subsection \<open>The example cache and remote\<close>

lemma ex_stripped:
  "stripped_doc_id entry_x1 = ''x1''" "stripped_doc_id entry_blank = []"
  "stripped_doc_id entry_x2 = ''x2''"
  by (simp_all add: stripped_doc_id_def strip_def isspace_def entry_x1_def entry_blank_def
      entry_x2_def)

lemma ex_lower: "lower ''success'' = ''success''"
  by (simp add: lower_def lower_char_def)

lemma ex_marks:
  "blank entry_blank" "\<not> blank entry_x1" "\<not> blank entry_x2"
  "gone client0 entry_x1" "\<not> gone client0 entry_x2" "\<not> reported_failed client0 entry_x2"
  "\<not> aborts client0 entry_x1" "\<not> aborts client0 entry_x2" "\<not> aborts client0 entry_blank"
  by (simp_all add: blank_def gone_def reported_failed_def aborts_def outcome_def ex_stripped
      client0_def doc_url_def status_failed_def py_or_def truthy_def ex_lower)

lemma ex_cache:
  "no_abort client0 cache0" "marked client0 cache0 = [''d1'', ''d2'']"
  "kept client0 cache0 = [(''d3'', entry_x2)]"
  "count_failed client0 cache0 = 0" "count_not_found client0 cache0 = 1"
  by (simp_all add: no_abort_def marked_def kept_def cache0_def removable_def ex_marks
      count_failed_def count_not_found_def)

lemma ex_time: "valid_time time0" "strftime time0 = ''20240309-140507''"
  by (simp_all add: valid_time_def time0_def strftime_def two_def digit_def)

lemma ex_abort_run:
  "main (args0 False) client_list time0 (world_of (JsonObject cache0)) =
     (Inl AttributeError,
      \<lparr>files = [cache_path0 \<mapsto> JsonObject cache0],
       stdout = [Scanning 3 ''http://127.0.0.1:7272''], stderr = [],
       requests = [''/v3/documents/x1''], fs_log = [], faults = (\<lambda>x. None)\<rparr>)"
  by (simp add: main_def args0_def world_of_def load_cache_def cache0_def scan0_def print_def
      ex_stripped get_doc_status_def doc_url_def client_list_def doc_status_def)

subsection \<open>A second run\<close>

lemma no_abort_kept: "no_abort client c \<Longrightarrow> no_abort client (kept client c)"
  by (simp add: no_abort_def kept_def list_all_iff)

lemma marked_kept: "marked client (kept client c) = []"
proof -
  have "\<And>kv. kv \<in> set c \<Longrightarrow> removable client (snd kv) \<Longrightarrow> fst kv \<in> set (marked client c)"
    by (auto simp: marked_def)
  then have "filter (\<lambda>kv. removable client (snd kv)) (kept client c) = []"
    by (auto simp: kept_def filter_empty_conv)
  then show ?thesis by (simp add: marked_def)
qed

lemma kept_unmarked: "marked client c = [] \<Longrightarrow> kept client c = c"
  by (simp add: kept_def)

lemma counts_unmarked:
  assumes "marked client c = []"
  shows "count_failed client c = 0" "count_not_found client c = 0"
proof -
  from assms have "\<And>kv. kv \<in> set c \<Longrightarrow> \<not> removable client (snd kv)"
    by (auto simp: marked_def filter_empty_conv)
  then show "count_failed client c = 0" "count_not_found client c = 0"
    by (auto simp: count_failed_def count_not_found_def removable_def filter_empty_conv)
qed

lemma main_result_cases:
  assumes "main a client now w = (Inr 0, w1)"
  obtains c where "files w (cache a) = Some (JsonObject c)" "no_abort client c"
proof -
  have nn: "files w (cache a) \<noteq> None"
  proof
    assume "files w (cache a) = None"
    from main_missing[OF this, of client now] assms show False by simp
  qed
  then obtain x where x: "files w (cache a) = Some x" by auto
  show ?thesis
  proof (cases x)
    case NotJson
    with x assms show ?thesis by (simp add: main_not_json)
  next
    case JsonNonObject
    with x assms show ?thesis by (simp add: main_non_object)
  next
    case (JsonObject c)
    with x have f: "files w (cache a) = Some (JsonObject c)" by simp
    have "no_abort client c"
    proof (rule ccontr)
      assume "\<not> no_abort client c"
      from main_aborted[OF f this, of now] assms show False by auto
    qed
    with f that show ?thesis by blast
  next
    case Truncated
    with x assms show ?thesis by (simp add: main_truncated)
  qed
qed

lemma second_run_nothing:
  assumes "files w1 (cache a) = Some (JsonObject c')" "no_abort client c'"
    "marked client c' = []" "\<not> dry_run a"
  shows "fst (main a client now' w1) = Inr 0 \<and>
         files (snd (main a client now' w1)) = files w1 \<and>
         fs_log (snd (main a client now' w1)) = fs_log w1 \<and>
         stdout (snd (main a client now' w1)) =
           stdout w1 @ [Scanning (length c') (base a), Summary (length c') 0 0 0,
                        NothingToRemove]"
  unfolding main_nothing[OF assms(1,2,4,3)]
  by (simp add: after_scan_def print_def scanned_world_simps
      scanned_world_stdout_unmarked[OF assms(3)] summary_def assms(3)
      counts_unmarked[OF assms(3)])

lemma pruned_cache_file:
  assumes "tmp \<noteq> p"
  shows "replay [Copy p backup, OpenW tmp, Dump tmp c', Replace tmp p] f p =
         Some (JsonObject c')"
  using assms by simp

text \<open>
  C6: after a run that is not a dry run and returned 0, the cache file holds the cache
  without the marked records; a second run on the resulting world with the same remote
  returns 0, marks nothing (its summary counts 0 removals), performs no file operation and
  leaves every file as it is.
\<close>

theorem prune_idempotent:
  assumes "\<not> dry_run a" "main a client now w = (Inr 0, w1)"
  shows "\<exists>c. files w (cache a) = Some (JsonObject c) \<and>
             files w1 (cache a) = Some (JsonObject (kept client c)) \<and>
             fst (main a client now' w1) = Inr 0 \<and>
             files (snd (main a client now' w1)) = files w1 \<and>
             fs_log (snd (main a client now' w1)) = fs_log w1 \<and>
             stdout (snd (main a client now' w1)) =
               stdout w1 @ [Scanning (length (kept client c)) (base a),
                            Summary (length (kept client c)) 0 0 0, NothingToRemove]"
proof -
  from assms(2) obtain c where f: "files w (cache a) = Some (JsonObject c)"
    and na: "no_abort client c" by (rule main_result_cases)
  have f1: "files w1 (cache a) = Some (JsonObject (kept client c))"
  proof (cases "marked client c = []")
    case True
    from main_nothing[OF f na assms(1) True, of now] assms(2)
    have "files w1 = files w" by (auto simp: print_def after_scan_simps)
    with f True show ?thesis by (simp add: kept_unmarked)
  next
    case False
    show ?thesis
    proof (cases "with_suffix (cache a) (suffix (name (cache a)) @ ''.bak.'' @ strftime now)")
      case (Inl err)
      from main_prune_backup_error[OF f na assms(1) False Inl] assms(2) show ?thesis by simp
    next
      case b: (Inr backup)
      show ?thesis
      proof (cases "with_suffix (cache a) (suffix (name (cache a)) @ ''.tmp'')")
        case (Inl err)
        from main_prune_tmp_error[OF f na assms(1) False b Inl] assms(2) show ?thesis by auto
      next
        case t: (Inr tmp)
        from with_suffix_Inr[OF t] have "name tmp \<noteq> name (cache a)" by simp
        then have ne: "tmp \<noteq> cache a" by auto
        let ?ops = "[Copy (cache a) backup, OpenW tmp, Dump tmp (kept client c),
                     Replace tmp (cache a)]"
        obtain r w' where r: "run_ops ?ops (after_scan a client c w) = (r, w')"
          by (cases "run_ops ?ops (after_scan a client c w)")
        from main_prune_raw[OF f na assms(1) False b t] assms(2) r
        obtain u where u: "r = Inr u" and w1: "w1 = print (Wrote (cache a) backup) w'"
          by (cases r) auto
        from run_ops_Inr(2)[OF r[unfolded u]]
        have "files w' = replay ?ops (files (after_scan a client c w))" by simp
        with w1 have "files w1 (cache a) = replay ?ops (files (after_scan a client c w)) (cache a)"
          by (simp add: print_def)
        also have "\<dots> = Some (JsonObject (kept client c))" by (rule pruned_cache_file[OF ne])
        finally show ?thesis .
      qed
    qed
  qed
  from second_run_nothing[OF f1 no_abort_kept[OF na] marked_kept assms(1), of now'] f f1
  show ?thesis by blast
qed

subsection \<open>Backup and replacement\<close>

lemma tmp_backup_distinct:
  "tmp_path p \<noteq> p" "backup_path p now \<noteq> p" "tmp_path p \<noteq> backup_path p now"
proof -
  have "name (tmp_path p) \<noteq> name p" by (simp add: tmp_path_def)
  then show "tmp_path p \<noteq> p" by auto
  have "name (backup_path p now) \<noteq> name p" by (simp add: backup_path_def)
  then show "backup_path p now \<noteq> p" by auto
  have "name (tmp_path p) \<noteq> name (backup_path p now)"
    by (simp add: tmp_path_def backup_path_def)
  then show "tmp_path p \<noteq> backup_path p now" by auto
qed

text \<open>
  A run that is not a dry run, loads a cache, completes its scan, marks at least one record
  and meets no failing file operation returns 0 and performs exactly four file operations,
  in this order: copy the cache file to the backup path, open the temporary path for
  writing, dump the pruned cache there, replace the cache file by the temporary file. The
  backup path is the cache path with \<open>.bak.\<close> and the time stamp \<open>YYYYMMDD-HHMMSS\<close>
  appended to its name. After each of the first three operations the cache file still holds
  the original cache, after the fourth the pruned cache. At the end the backup holds the
  original cache and the temporary file is gone.
\<close>

lemma prune_backup_then_replace:
  assumes "\<not> dry_run a" "files w (cache a) = Some (JsonObject c)" "no_abort client c"
    "marked client c \<noteq> []" "name (cache a) \<noteq> []" "CHR ''/'' \<notin> set (name (cache a))"
    "valid_time now" "no_fault w (prune_ops (cache a) now (kept client c))"
  shows "fst (main a client now w) = Inr 0 \<and>
         fs_log (snd (main a client now w)) =
           fs_log w @ prune_ops (cache a) now (kept client c) \<and>
         files (snd (main a client now w)) =
           replay (prune_ops (cache a) now (kept client c)) (files w) \<and>
         map (\<lambda>k. replay (take k (prune_ops (cache a) now (kept client c))) (files w) (cache a))
             [0, 1, 2, 3, 4] =
           [Some (JsonObject c), Some (JsonObject c), Some (JsonObject c), Some (JsonObject c),
            Some (JsonObject (kept client c))] \<and>
         files (snd (main a client now w)) (backup_path (cache a) now) = Some (JsonObject c) \<and>
         files (snd (main a client now w)) (tmp_path (cache a)) = None \<and>
         name (backup_path (cache a) now) = name (cache a) @ ''.bak.'' @ strftime now \<and>
         stamp_format (strftime now)"
proof -
  let ?p = "cache a"
  let ?ops = "prune_ops ?p now (kept client c)"
  let ?ws = "after_scan a client c w"
  note d0 = tmp_backup_distinct(1)[of ?p] tmp_backup_distinct(2,3)[of ?p now]
  note d = d0 d0[THEN not_sym]
  from assms(8) have nf: "no_fault ?ws ?ops" by (simp add: no_fault_def after_scan_simps)
  have m: "main a client now w =
         (Inr 0, print (Wrote ?p (backup_path ?p now))
                   (?ws\<lparr>files := replay ?ops (files ?ws), fs_log := fs_log ?ws @ ?ops\<rparr>))"
    by (simp add: main_prune[OF assms(2,3,1,4,5,6)] run_ops_ok[OF nf])
  have 1: "fst (main a client now w) = Inr 0" by (simp add: m)
  have 2: "fs_log (snd (main a client now w)) = fs_log w @ ?ops"
    by (simp add: m print_def after_scan_simps)
  have 3: "files (snd (main a client now w)) = replay ?ops (files w)"
    by (simp add: m print_def after_scan_simps)
  have 4: "map (\<lambda>k. replay (take k ?ops) (files w) ?p) [0, 1, 2, 3, 4] =
           [Some (JsonObject c), Some (JsonObject c), Some (JsonObject c), Some (JsonObject c),
            Some (JsonObject (kept client c))]"
    using d assms(2) by (simp add: prune_ops_def numeral_2_eq_2 numeral_3_eq_3 eval_nat_numeral)
  have 5: "files (snd (main a client now w)) (backup_path ?p now) = Some (JsonObject c)"
    unfolding 3 using d assms(2) by (simp add: prune_ops_def)
  have 6: "files (snd (main a client now w)) (tmp_path ?p) = None"
    unfolding 3 by (simp add: prune_ops_def)
  have 7: "name (backup_path ?p now) = name ?p @ ''.bak.'' @ strftime now"
    by (simp add: backup_path_def)
  from 1 2 3 4 5 6 7 strftime_format[OF assms(7)] show ?thesis by blast
qed

text \<open>
  When one of the four file operations fails, its exception leaves \<open>main\<close> and the cache
  file still holds the original cache: only the final replace writes to the cache path.
\<close>

lemma failed_ops_keep_cache_file:
  assumes "\<not> no_fault w (prune_ops p now c')"
  shows "\<exists>err w'. run_ops (prune_ops p now c') w = (Inl err, w') \<and> files w' p = files w p"
proof -
  note d0 = tmp_backup_distinct(1)[of p] tmp_backup_distinct(2,3)[of p now]
  note d = d0 d0[THEN not_sym]
  from assms d show ?thesis
    by (auto simp: prune_ops_def do_op_def no_fault_def split: option.splits)
qed

lemma cache_file_never_partial:
  assumes "\<not> dry_run a" "files w (cache a) = Some (JsonObject c)" "no_abort client c"
    "marked client c \<noteq> []" "name (cache a) \<noteq> []" "CHR ''/'' \<notin> set (name (cache a))"
  shows "files (snd (main a client now w)) (cache a) = Some (JsonObject c) \<or>
         files (snd (main a client now w)) (cache a) = Some (JsonObject (kept client c))"
proof -
  let ?p = "cache a"
  let ?ops = "prune_ops ?p now (kept client c)"
  let ?ws = "after_scan a client c w"
  note m = main_prune[OF assms(2,3,1,4,5,6), of now]
  show ?thesis
  proof (cases "no_fault ?ws ?ops")
    case True
    have "replay ?ops (files ?ws) ?p = Some (JsonObject (kept client c))"
      unfolding prune_ops_def by (rule pruned_cache_file[OF tmp_backup_distinct(1)])
    then show ?thesis by (simp add: m run_ops_ok[OF True] print_def)
  next
    case False
    from failed_ops_keep_cache_file[OF False] obtain err w' where
      "run_ops ?ops ?ws = (Inl err, w')" "files w' ?p = files ?ws ?p" by blast
    with assms(2) show ?thesis by (simp add: m after_scan_simps)
  qed
qed

subsection \<open>Dry run\<close>

text \<open>
  A dry run changes no file and performs no file operation, whatever the cache file holds
  and whatever the remote answers. When the cache loads and the scan completes, it exits
  with status 0 and its last two lines of output are the summary, with the number of
  records that would be removed, and the dry-run notice.
\<close>

lemma dry_run_changes_no_file:
  assumes "dry_run a"
  shows "files (snd (main a client now w)) = files w \<and>
         fs_log (snd (main a client now w)) = fs_log w \<and>
         (files w (cache a) = Some (JsonObject c) \<and> no_abort client c \<longrightarrow>
            exit_status (fst (main a client now w)) = 0 \<and>
            (\<exists>lines. stdout (snd (main a client now w)) =
               stdout w @ Scanning (length c) (base a) # lines @
               [Summary (length c) (length (marked client c)) (count_failed client c)
                  (count_not_found client c), DryRunNotice]))"
proof -
  have frame: "files (snd (main a client now w)) = files w \<and>
               fs_log (snd (main a client now w)) = fs_log w"
  proof (cases "files w (cache a)")
    case None
    then show ?thesis by (simp add: main_missing eprint_def)
  next
    case (Some x)
    show ?thesis
    proof (cases x)
      case NotJson
      with Some show ?thesis by (simp add: main_not_json)
    next
      case JsonNonObject
      with Some show ?thesis by (simp add: main_non_object eprint_def)
    next
      case (JsonObject c')
      with Some have f: "files w (cache a) = Some (JsonObject c')" by simp
      show ?thesis
      proof (cases "no_abort client c'")
        case True
        show ?thesis
          by (simp add: main_dry[OF f True assms] print_def after_scan_simps)
      next
        case False
        from main_aborted[OF f False, of now] show ?thesis by auto
      qed
    next
      case Truncated
      with Some show ?thesis by (simp add: main_truncated)
    qed
  qed
  have report: "exit_status (fst (main a client now w)) = 0 \<and>
            (\<exists>lines. stdout (snd (main a client now w)) =
               stdout w @ Scanning (length c) (base a) # lines @
               [Summary (length c) (length (marked client c)) (count_failed client c)
                  (count_not_found client c), DryRunNotice])"
    if f: "files w (cache a) = Some (JsonObject c)" and na: "no_abort client c"
  proof -
    from after_scan_stdout[of a client c w] obtain lines where
      "stdout (after_scan a client c w) =
         stdout w @ Scanning (length c) (base a) # lines @ [summary client c]" ..
    then show ?thesis
      by (simp add: main_dry[OF f na assms] print_def exit_status_def summary_def)
  qed
  from frame report show ?thesis by blast
qed

subsection \<open>Runs that end with an exception\<close>

lemma scan_marks:
  assumes "no_abort client c"
  shows "\<exists>s w'. scan client c scan0 w = (Inr s, w') \<and>
           to_remove s = map fst (filter (\<lambda>kv. removable client (snd kv)) c) \<and>
           requests w' = requests w @ map (\<lambda>kv. doc_url (stripped_doc_id (snd kv)))
                                        (filter (\<lambda>kv. \<not> blank (snd kv)) c)"
  using scan_scanned[OF assms, of w]
  by (simp add: scanned_state_simps scanned_world_simps marked_def)

lemma main_exit_2:
  assumes "files w (cache a) = None \<or> files w (cache a) = Some JsonNonObject"
  shows "exit_status (fst (main a client now w)) = 2 \<and>
         requests (snd (main a client now w)) = requests w \<and>
         files (snd (main a client now w)) = files w"
  using assms by (auto simp: main_missing main_non_object exit_status_def eprint_def)

text \<open>
  C1: the claim that no outcome of the remote call aborts the batch fails on the code. On
  the cache \<open>cache0\<close> and a remote that answers 200 with a body whose \<open>results\<close> is a list,
  \<open>main\<close> ends with an uncaught \<open>AttributeError\<close> at the first record with a \<open>doc_id\<close>:
  the process exits with status 1 and only the line "Scanning 3 cache entries" was printed.
  (\<open>scan_marks\<close> above is the part of the claim that holds: a scan that does not raise
  marks exactly the removable records and sends no request for a blank \<open>doc_id\<close>.)
\<close>

theorem scan_aborts_on_non_object_results:
  "fst (main (args0 False) client_list time0 (world_of (JsonObject cache0))) =
     Inl AttributeError \<and>
   exit_status (fst (main (args0 False) client_list time0 (world_of (JsonObject cache0)))) = 1 \<and>
   stdout (snd (main (args0 False) client_list time0 (world_of (JsonObject cache0)))) =
     [Scanning 3 ''http://127.0.0.1:7272'']"
  by (simp add: ex_abort_run exit_status_def)

text \<open>
  C2: the claim that a malformed cache file ends the run with exit code 2 fails on the
  code. On a cache file that is not JSON, \<open>json.load\<close> raises \<open>JSONDecodeError\<close>, which
  \<open>main\<close> does not catch: the process exits with status 1, the world unchanged.
  (\<open>main_exit_2\<close> above is the part that holds: a missing file and a top level that is not
  an object give exit code 2 without any request.)
\<close>

theorem malformed_cache_exit_status:
  "main (args0 False) client0 time0 (world_of NotJson) =
     (Inl JSONDecodeError, world_of NotJson) \<and>
   exit_status (fst (main (args0 False) client0 time0 (world_of NotJson))) = 1"
proof -
  have "files (world_of NotJson) (cache (args0 False)) = Some NotJson"
    by (simp add: world_of_def args0_def)
  from main_not_json[OF this] show ?thesis by (simp add: exit_status_def)
qed

lemma ex_marked_then_abort:
  "main (args0 dry) client_list time0 (world_of (JsonObject cache1)) =
     (Inl AttributeError,
      \<lparr>files = [cache_path0 \<mapsto> JsonObject cache1],
       stdout = [Scanning 2 ''http://127.0.0.1:7272''], stderr = [],
       requests = [''/v3/documents/x1''], fs_log = [], faults = (\<lambda>x. None)\<rparr>)"
  by (simp add: main_def args0_def world_of_def load_cache_def cache1_def scan0_def print_def
      ex_stripped get_doc_status_def doc_url_def client_list_def doc_status_def)

lemma ex_first_marked:
  "fst (scan client_list [(''d2'', entry_blank)] scan0 w) =
     Inr \<lparr>to_remove = [''d2''], checked = 1, failed = 0, not_found = 0\<rparr>"
  by (simp add: scan0_def ex_stripped)

text \<open>
  C4: the claim that every run that is not a dry run and has marked a record makes the
  backup and writes the pruned cache fails on the code, by the defect of C1. On the cache
  \<open>cache1\<close> the scan marks the first record \<open>d2\<close>, whose \<open>doc_id\<close> is blank; the remote
  answers the request for the second record with 200 and a body whose \<open>results\<close> is a list,
  and \<open>main\<close> ends with the uncaught \<open>AttributeError\<close>: exit status 1, no file operation,
  no backup, the cache file as it was. (\<open>prune_backup_then_replace\<close> and
  \<open>cache_file_never_partial\<close> above are the part that holds, for a scan that completes.)
\<close>

theorem marked_record_without_backup:
  "fst (scan client_list [(''d2'', entry_blank)] scan0 (world_of (JsonObject cache1))) =
     Inr \<lparr>to_remove = [''d2''], checked = 1, failed = 0, not_found = 0\<rparr> \<and>
   fst (main (args0 False) client_list time0 (world_of (JsonObject cache1))) =
     Inl AttributeError \<and>
   exit_status (fst (main (args0 False) client_list time0 (world_of (JsonObject cache1)))) = 1 \<and>
   fs_log (snd (main (args0 False) client_list time0 (world_of (JsonObject cache1)))) = [] \<and>
   files (snd (main (args0 False) client_list time0 (world_of (JsonObject cache1)))) =
     [cache_path0 \<mapsto> JsonObject cache1]"
  by (simp add: ex_marked_then_abort ex_first_marked exit_status_def del: scan.simps)

text \<open>
  C5: the claim that every dry run reports the number of records it would remove and exits
  with code 0 fails on the code, by the defect of C1. On the cache \<open>cache1\<close>, which has one
  record to remove, and the remote that answers 200 with a body whose \<open>results\<close> is a list,
  the dry run ends with the uncaught \<open>AttributeError\<close>: exit status 1, and the only line
  printed is "Scanning 2 cache entries", so no count is reported. No file is changed.
  (\<open>dry_run_changes_no_file\<close> above is the part that holds.)
\<close>

theorem dry_run_reports_nothing_on_abort:
  "fst (main (args0 True) client_list time0 (world_of (JsonObject cache1))) =
     Inl AttributeError \<and>
   exit_status (fst (main (args0 True) client_list time0 (world_of (JsonObject cache1)))) = 1 \<and>
   stdout (snd (main (args0 True) client_list time0 (world_of (JsonObject cache1)))) =
     [Scanning 2 ''http://127.0.0.1:7272''] \<and>
   files (snd (main (args0 True) client_list time0 (world_of (JsonObject cache1)))) =
     [cache_path0 \<mapsto> JsonObject cache1]"
  by (simp add: ex_marked_then_abort exit_status_def)

text \<open>
  The same happens when \<open>client.get\<close> raises an exception that is not an
  \<open>httpx.HTTPError\<close>, here \<open>httpx.InvalidURL\<close> for a \<open>doc_id\<close> with a control character.
\<close>

lemma ex_invalid_url_run:
  "\<not> no_abort client_strict cache2 \<and>
   main (args0 dry) client_strict time0 (world_of (JsonObject cache2)) =
     (Inl InvalidURL,
      \<lparr>files = [cache_path0 \<mapsto> JsonObject cache2],
       stdout = [Scanning 2 ''http://127.0.0.1:7272''], stderr = [],
       requests = [[CHR ''/'', CHR ''v'', CHR ''3'', CHR ''/'', CHR ''d'', CHR ''o'', CHR ''c'',
                    CHR ''u'', CHR ''m'', CHR ''e'', CHR ''n'', CHR ''t'', CHR ''s'', CHR ''/'',
                    CHR ''a'', CHR 0x01, CHR ''b'']],
       fs_log = [], faults = (\<lambda>x. None)\<rparr>)"
proof -
  have st: "stripped_doc_id entry_ctl = [CHR ''a'', CHR 0x01, CHR ''b'']"
    by (simp add: stripped_doc_id_def strip_def isspace_def entry_ctl_def)
  have na: "\<not> no_abort client_strict cache2"
    by (simp add: no_abort_def cache2_def aborts_def blank_def outcome_def st ex_stripped
        client_strict_def doc_url_def)
  have "main (args0 dry) client_strict time0 (world_of (JsonObject cache2)) =
     (Inl InvalidURL,
      \<lparr>files = [cache_path0 \<mapsto> JsonObject cache2],
       stdout = [Scanning 2 ''http://127.0.0.1:7272''], stderr = [],
       requests = [[CHR ''/'', CHR ''v'', CHR ''3'', CHR ''/'', CHR ''d'', CHR ''o'', CHR ''c'',
                    CHR ''u'', CHR ''m'', CHR ''e'', CHR ''n'', CHR ''t'', CHR ''s'', CHR ''/'',
                    CHR ''a'', CHR 0x01, CHR ''b'']],
       fs_log = [], faults = (\<lambda>x. None)\<rparr>)"
    by (simp add: main_def args0_def world_of_def load_cache_def cache2_def scan0_def print_def
        ex_stripped st get_doc_status_def doc_url_def client_strict_def doc_status_def)
  with na show ?thesis by simp
qed

subsection \<open>The theorems on the example\<close>

lemma ex_files: "files (world_of x) (cache (args0 dry)) = Some x"
  by (simp add: world_of_def args0_def)

lemma ex_no_fault: "no_fault (world_of x) ops"
  by (simp add: no_fault_def world_of_def list_all_iff)

lemma ex_prune_run:
  "fst (main (args0 False) client0 time0 (world_of (JsonObject cache0))) = Inr 0 \<and>
   fs_log (snd (main (args0 False) client0 time0 (world_of (JsonObject cache0)))) =
     [Copy cache_path0 (cache_path0\<lparr>name := ''r2r_upsert_cache.json.bak.20240309-140507''\<rparr>),
      OpenW (cache_path0\<lparr>name := ''r2r_upsert_cache.json.tmp''\<rparr>),
      Dump (cache_path0\<lparr>name := ''r2r_upsert_cache.json.tmp''\<rparr>) [(''d3'', entry_x2)],
      Replace (cache_path0\<lparr>name := ''r2r_upsert_cache.json.tmp''\<rparr>) cache_path0] \<and>
   files (snd (main (args0 False) client0 time0 (world_of (JsonObject cache0))))
     (cache_path0\<lparr>name := ''r2r_upsert_cache.json.bak.20240309-140507''\<rparr>) =
     Some (JsonObject cache0) \<and>
   stamp_format ''20240309-140507''"
proof -
  have h: "\<not> dry_run (args0 False)" "name (cache (args0 False)) \<noteq> []"
    "CHR ''/'' \<notin> set (name (cache (args0 False)))" "marked client0 cache0 \<noteq> []"
    by (simp_all add: args0_def cache_path0_def ex_cache)
  have n: "name cache_path0 = ''r2r_upsert_cache.json''" "cache (args0 False) = cache_path0"
    by (simp_all add: cache_path0_def args0_def)
  from prune_backup_then_replace[OF h(1) ex_files ex_cache(1) h(4) h(2) h(3) ex_time(1)
      ex_no_fault]
  show ?thesis
    by (simp add: prune_ops_def backup_path_def tmp_path_def ex_cache ex_time n world_of_def
        cache_path0_def)
qed

lemma ex_dry_run:
  "files (snd (main (args0 True) client0 time0 (world_of (JsonObject cache0)))) =
     [cache_path0 \<mapsto> JsonObject cache0] \<and>
   fs_log (snd (main (args0 True) client0 time0 (world_of (JsonObject cache0)))) = [] \<and>
   exit_status (fst (main (args0 True) client0 time0 (world_of (JsonObject cache0)))) = 0 \<and>
   last (butlast (stdout (snd (main (args0 True) client0 time0 (world_of (JsonObject cache0))))))
     = Summary 3 2 0 1 \<and>
   last (stdout (snd (main (args0 True) client0 time0 (world_of (JsonObject cache0)))))
     = DryRunNotice"
proof -
  have h: "dry_run (args0 True)" by (simp add: args0_def)
  let ?w = "world_of (JsonObject cache0)"
  let ?r = "main (args0 True) client0 time0 ?w"
  have len: "length cache0 = 3" by (simp add: cache0_def)
  from dry_run_changes_no_file[OF h, of client0 time0 ?w cache0] ex_files[of _ True] ex_cache(1)
  have a: "files (snd ?r) = files ?w" "fs_log (snd ?r) = fs_log ?w" "exit_status (fst ?r) = 0"
    and "\<exists>lines. stdout (snd ?r) =
           stdout ?w @ Scanning (length cache0) (base (args0 True)) # lines @
           [Summary (length cache0) (length (marked client0 cache0))
              (count_failed client0 cache0) (count_not_found client0 cache0), DryRunNotice]"
    by blast+
  then obtain lines where l: "stdout (snd ?r) =
           stdout ?w @ Scanning (length cache0) (base (args0 True)) # lines @
           [Summary (length cache0) (length (marked client0 cache0))
              (count_failed client0 cache0) (count_not_found client0 cache0), DryRunNotice]"
    by blast
  have b: "last (stdout (snd ?r)) = DryRunNotice"
    "last (butlast (stdout (snd ?r))) = Summary 3 2 0 1"
    unfolding l by (simp_all add: ex_cache len butlast_append)
  from a b show ?thesis by (simp add: world_of_def)
qed

text \<open>
  When \<open>json.dump\<close> fails, the backup has been made, the temporary file is left partly
  written, the replace does not happen and the cache file holds the original cache.
\<close>

lemma ex_dump_fails:
  "fst (main (args0 False) client0 time0 (world_of (JsonObject cache0)\<lparr>faults := dump_fails\<rparr>))
     = Inl UnicodeEncodeError \<and>
   fs_log (snd (main (args0 False) client0 time0
                  (world_of (JsonObject cache0)\<lparr>faults := dump_fails\<rparr>))) =
     [Copy cache_path0 (cache_path0\<lparr>name := ''r2r_upsert_cache.json.bak.20240309-140507''\<rparr>),
      OpenW (cache_path0\<lparr>name := ''r2r_upsert_cache.json.tmp''\<rparr>)] \<and>
   files (snd (main (args0 False) client0 time0
                 (world_of (JsonObject cache0)\<lparr>faults := dump_fails\<rparr>))) cache_path0 =
     Some (JsonObject cache0) \<and>
   files (snd (main (args0 False) client0 time0
                 (world_of (JsonObject cache0)\<lparr>faults := dump_fails\<rparr>)))
     (cache_path0\<lparr>name := ''r2r_upsert_cache.json.tmp''\<rparr>) = Some Truncated"
proof -
  let ?w = "world_of (JsonObject cache0)\<lparr>faults := dump_fails\<rparr>"
  have h: "\<not> dry_run (args0 False)" "name (cache (args0 False)) \<noteq> []"
    "CHR ''/'' \<notin> set (name (cache (args0 False)))" "marked client0 cache0 \<noteq> []"
    "files ?w (cache (args0 False)) = Some (JsonObject cache0)"
    by (simp_all add: args0_def cache_path0_def ex_cache world_of_def)
  have n: "name cache_path0 = ''r2r_upsert_cache.json''" "cache (args0 False) = cache_path0"
    by (simp_all add: cache_path0_def args0_def)
  show ?thesis
    unfolding main_prune[OF h(5) ex_cache(1) h(1) h(4) h(2) h(3)]
    by (simp add: prune_ops_def do_op_def after_scan_simps dump_fails_def backup_path_def
        tmp_path_def ex_time n world_of_def cache_path0_def)
qed

theorem prune_idempotent_witness:
  "fst (main (args0 False) client0 time0 (world_of (JsonObject cache0))) = Inr 0 \<and>
   files (snd (main (args0 False) client0 time0 (world_of (JsonObject cache0)))) cache_path0 =
     Some (JsonObject [(''d3'', entry_x2)]) \<and>
   fst (main (args0 False) client0 time0
          (snd (main (args0 False) client0 time0 (world_of (JsonObject cache0))))) = Inr 0 \<and>
   files (snd (main (args0 False) client0 time0
          (snd (main (args0 False) client0 time0 (world_of (JsonObject cache0)))))) =
     files (snd (main (args0 False) client0 time0 (world_of (JsonObject cache0)))) \<and>
   stdout (snd (main (args0 False) client0 time0
          (snd (main (args0 False) client0 time0 (world_of (JsonObject cache0)))))) =
     stdout (snd (main (args0 False) client0 time0 (world_of (JsonObject cache0)))) @
     [Scanning 1 ''http://127.0.0.1:7272'', Summary 1 0 0 0, NothingToRemove]"
proof -
  let ?w = "world_of (JsonObject cache0)"
  have r: "fst (main (args0 False) client0 time0 ?w) = Inr 0"
    using ex_prune_run by simp
  then have m: "main (args0 False) client0 time0 ?w =
                (Inr 0, snd (main (args0 False) client0 time0 ?w))"
    by (metis prod.collapse)
  have h: "\<not> dry_run (args0 False)" by (simp add: args0_def)
  from prune_idempotent[OF h m, of time0] ex_files[of "JsonObject cache0" False]
  have "files (snd (main (args0 False) client0 time0 ?w)) (cache (args0 False)) =
          Some (JsonObject (kept client0 cache0)) \<and>
        fst (main (args0 False) client0 time0 (snd (main (args0 False) client0 time0 ?w)))
          = Inr 0 \<and>
        files (snd (main (args0 False) client0 time0
                 (snd (main (args0 False) client0 time0 ?w)))) =
          files (snd (main (args0 False) client0 time0 ?w)) \<and>
        stdout (snd (main (args0 False) client0 time0
                 (snd (main (args0 False) client0 time0 ?w)))) =
          stdout (snd (main (args0 False) client0 time0 ?w)) @
          [Scanning (length (kept client0 cache0)) (base (args0 False)),
           Summary (length (kept client0 cache0)) 0 0 0, NothingToRemove]"
    by auto
  with r show ?thesis by (simp add: ex_cache args0_def)
qed

section \<open>Properties of one\_shot.py\<close>

subsection \<open>No retrieved documents\<close>

text \<open>
  C3: when retrieval returns no document, \<open>process_context_query\<close> raises the
  \<open>ContextException\<close> "No documents retrieved, please index a few documents first" (the
  specification's \<open>NoContextError\<close>) and \<open>llm.invoke\<close> is not called: the list of calls
  is empty.
\<close>

theorem no_documents_raises:
  "get_context_docs user_id query ctx_limit scope_type scope_list = Inr [] \<Longrightarrow>
   process_context_query user_id get_context_docs get_context_chunks invoke get_pruned_query
     query ctx_limit scope_type scope_list template end_separator =
   (Inl (ContextException ''No documents retrieved, please index a few documents first''), [])"
  by (simp add: process_context_query_def)

theorem no_documents_raises_witness:
  "fixed_docs [] ''u'' ''q'' 20 None None = Inr [] \<and>
   process_context_query ''u'' (fixed_docs []) page_contents echo_llm join_pruner
     ''q'' 20 None None None [] =
   (Inl (ContextException ''No documents retrieved, please index a few documents first''), [])"
proof -
  have h: "fixed_docs [] ''u'' ''q'' 20 None None = Inr []"
    by (simp add: fixed_docs_def)
  show ?thesis
    using h no_documents_raises[where get_context_docs = "fixed_docs []" and user_id = "''u''"
        and query = "''q''" and ctx_limit = 20 and scope_type = None and scope_list = None
        and get_context_chunks = page_contents and invoke = echo_llm
        and get_pruned_query = join_pruner and template = None and end_separator = "[]"]
    by simp
qed

subsection \<open>Sources\<close>

lemma count_list_remdups:
  "count_list (remdups xs) x = (if x \<in> set xs then 1 else 0)"
  by (induction xs) auto

lemma set_truthy_sources:
  "set (truthy_sources docs) =
     {s. s \<noteq> [] \<and> (\<exists>d\<in>set docs. metadata d ''source'' = Some s)}"
  by (induction docs) (auto simp: truthy_sources_def split: option.splits)

text \<open>
  C7, as amended: when \<open>process_context_query\<close> returns, every non-empty \<open>source\<close>
  value of a retrieved document occurs exactly once in \<open>sources\<close>, however many documents
  carry it, and nothing else occurs there; a document whose \<open>source\<close> is missing or is
  the empty string contributes nothing.
\<close>

theorem sources_distinct_truthy:
  "get_context_docs user_id query ctx_limit scope_type scope_list = Inr docs \<Longrightarrow>
   fst (process_context_query user_id get_context_docs get_context_chunks invoke
          get_pruned_query query ctx_limit scope_type scope_list template end_separator)
     = Inr out \<Longrightarrow>
   count_list (sources out) s =
     (if s \<noteq> [] \<and> (\<exists>d\<in>set docs. metadata d ''source'' = Some s) then 1 else 0)"
  by (auto simp: process_context_query_def Let_def unique_sources_def count_list_remdups
        set_truthy_sources split: sum.splits if_splits)

lemma example_context_run:
  "process_context_query ''u'' (fixed_docs [doc_a, doc_blank, doc_a]) page_contents echo_llm
     join_pruner ''q'' 20 None None None [] =
   (Inr \<lparr>output_text = ''alphabetaalphaq'', sources = [''a.txt'']\<rparr>,
    [\<lparr>prompt = ''alphabetaalphaq'', stop = Some [[]], userid = ''u''\<rparr>])"
  by (simp add: process_context_query_def fixed_docs_def page_contents_def echo_llm_def
      join_pruner_def doc_a_def doc_blank_def unique_sources_def truthy_sources_def strip_def
      isspace_def truthy_def)

theorem sources_distinct_truthy_witness:
  "count_list [''a.txt''] ''a.txt'' = 1 \<and> count_list [''a.txt''] [] = 0"
proof -
  have h: "fixed_docs [doc_a, doc_blank, doc_a] ''u'' ''q'' 20 None None
             = Inr [doc_a, doc_blank, doc_a]"
    by (simp add: fixed_docs_def)
  have r: "fst (process_context_query ''u'' (fixed_docs [doc_a, doc_blank, doc_a])
             page_contents echo_llm join_pruner ''q'' 20 None None None [])
           = Inr \<lparr>output_text = ''alphabetaalphaq'', sources = [''a.txt'']\<rparr>"
    by (simp add: example_context_run)
  show ?thesis
    using sources_distinct_truthy[where get_context_docs = "fixed_docs [doc_a, doc_blank, doc_a]"
            and s = "''a.txt''", OF h r]
          sources_distinct_truthy[where get_context_docs = "fixed_docs [doc_a, doc_blank, doc_a]"
            and s = "[]", OF h r]
    by (simp add: doc_a_def doc_blank_def)
qed

text \<open>
  The claim as stated fails on a document whose \<open>source\<close> is the empty string: the
  value is a source value of a retrieved document and does not occur in \<open>sources\<close>.
\<close>

theorem sources_counterexample:
  "metadata doc_blank ''source'' = Some [] \<and>
   fst (process_context_query ''u'' (fixed_docs [doc_a, doc_blank, doc_a]) page_contents
          echo_llm join_pruner ''q'' 20 None None None []) =
   Inr \<lparr>output_text = ''alphabetaalphaq'', sources = [''a.txt'']\<rparr> \<and>
   count_list [''a.txt''] [] = 0"
  using example_context_run by (simp add: doc_blank_def)

subsection \<open>The prompt and the stop argument\<close>

text \<open>
  C8: in \<open>process_query\<close>, when the pruning helper returns, \<open>llm.invoke\<close> is called once;
  without a template its prompt is the query itself, and with a template it is what the
  helper returns for the query, that template and no chunks. When the helper raises,
  nothing is passed to the model.
\<close>

theorem process_query_prompt:
  "(get_pruned_query query no_ctx_template [] = Inr pruned \<longrightarrow>
      map prompt (snd (process_query user_id invoke get_pruned_query query no_ctx_template
                         end_separator))
      = [case no_ctx_template of None \<Rightarrow> query | Some t \<Rightarrow> pruned]) \<and>
   (get_pruned_query query no_ctx_template [] = Inl err \<longrightarrow>
      snd (process_query user_id invoke get_pruned_query query no_ctx_template end_separator)
      = [])"
  by (auto simp: process_query_def Let_def split: sum.splits option.splits)

theorem process_query_prompt_witness:
  "map prompt (snd (process_query ''u'' echo_llm join_pruner ''q'' None [])) = [''q''] \<and>
   map prompt (snd (process_query ''u'' echo_llm template_pruner ''q'' (Some ''T:'') []))
     = [''T:q''] \<and>
   snd (process_query ''u'' echo_llm failing_pruner ''q'' None []) = []"
  using process_query_prompt[where get_pruned_query = join_pruner and query = "''q''"
          and no_ctx_template = None and pruned = "''q''" and user_id = "''u''"
          and invoke = echo_llm and end_separator = "[]"]
        process_query_prompt[where get_pruned_query = template_pruner and query = "''q''"
          and no_ctx_template = "Some ''T:''" and pruned = "''T:q''" and user_id = "''u''"
          and invoke = echo_llm and end_separator = "[]"]
        process_query_prompt[where get_pruned_query = failing_pruner and query = "''q''"
          and no_ctx_template = None and err = "ValueError ''Context length is too small''"
          and user_id = "''u''" and invoke = echo_llm and end_separator = "[]"]
  by (simp add: join_pruner_def template_pruner_def failing_pruner_def)

lemma context_calls_stop:
  "map stop (snd (process_context_query user_id get_context_docs get_context_chunks invoke
                    get_pruned_query query ctx_limit scope_type scope_list template
                    end_separator))
     \<in> {[], [Some [end_separator]]}"
  by (simp add: process_context_query_def Let_def split: sum.split)

lemma context_call_made:
  "get_context_docs user_id query ctx_limit scope_type scope_list = Inr docs \<Longrightarrow> docs \<noteq> [] \<Longrightarrow>
   get_pruned_query query (if truthy template then template else Some LLM_TEMPLATE)
     (get_context_chunks docs) = Inr pruned \<Longrightarrow>
   map stop (snd (process_context_query user_id get_context_docs get_context_chunks invoke
                    get_pruned_query query ctx_limit scope_type scope_list template
                    end_separator))
     = [Some [end_separator]]"
  by (simp add: process_context_query_def Let_def split: sum.split)

lemma query_calls_stop:
  "map stop (snd (process_query user_id invoke get_pruned_query query no_ctx_template
                    end_separator))
     \<in> {[], [if end_separator = [] then None else Some [end_separator]]}"
  by (simp add: process_query_def Let_def split: sum.split)

lemma query_call_made:
  "get_pruned_query query no_ctx_template [] = Inr pruned \<Longrightarrow>
   map stop (snd (process_query user_id invoke get_pruned_query query no_ctx_template
                    end_separator))
     = [if end_separator = [] then None else Some [end_separator]]"
  by (simp add: process_query_def Let_def split: sum.split)

text \<open>
  C10: every call of \<open>llm.invoke\<close> made by \<open>process_context_query\<close> has
  \<open>stop = [end_separator]\<close>, also for the empty separator, and a call is made when
  retrieval returns documents and the pruning helper returns; every call made by
  \<open>process_query\<close> has \<open>stop = None\<close> for the empty separator and \<open>[end_separator]\<close>
  otherwise, and a call is made when the pruning helper returns.
\<close>

theorem stop_argument:
  "map stop (snd (process_context_query user_id get_context_docs get_context_chunks invoke
                    get_pruned_query query ctx_limit scope_type scope_list template
                    end_separator))
     \<in> {[], [Some [end_separator]]} \<and>
   (get_context_docs user_id query ctx_limit scope_type scope_list = Inr docs \<and> docs \<noteq> [] \<and>
    get_pruned_query query (if truthy template then template else Some LLM_TEMPLATE)
      (get_context_chunks docs) = Inr pruned \<longrightarrow>
    map stop (snd (process_context_query user_id get_context_docs get_context_chunks invoke
                     get_pruned_query query ctx_limit scope_type scope_list template
                     end_separator))
      = [Some [end_separator]]) \<and>
   map stop (snd (process_query user_id invoke get_pruned_query query no_ctx_template
                    end_separator))
     \<in> {[], [if end_separator = [] then None else Some [end_separator]]} \<and>
   (get_pruned_query query no_ctx_template [] = Inr pruned' \<longrightarrow>
    map stop (snd (process_query user_id invoke get_pruned_query query no_ctx_template
                     end_separator))
      = [if end_separator = [] then None else Some [end_separator]])"
proof (intro conjI impI)
  show "map stop (snd (process_context_query user_id get_context_docs get_context_chunks invoke
                    get_pruned_query query ctx_limit scope_type scope_list template
                    end_separator))
     \<in> {[], [Some [end_separator]]}"
    by (rule context_calls_stop)
next
  assume "get_context_docs user_id query ctx_limit scope_type scope_list = Inr docs \<and>
    docs \<noteq> [] \<and>
    get_pruned_query query (if truthy template then template else Some LLM_TEMPLATE)
      (get_context_chunks docs) = Inr pruned"
  then show "map stop (snd (process_context_query user_id get_context_docs get_context_chunks
                     invoke get_pruned_query query ctx_limit scope_type scope_list template
                     end_separator))
      = [Some [end_separator]]"
    using context_call_made[of get_context_docs user_id query ctx_limit scope_type scope_list
        docs get_pruned_query template get_context_chunks pruned invoke end_separator]
    by simp
next
  show "map stop (snd (process_query user_id invoke get_pruned_query query no_ctx_template
                    end_separator))
     \<in> {[], [if end_separator = [] then None else Some [end_separator]]}"
    by (rule query_calls_stop)
next
  assume "get_pruned_query query no_ctx_template [] = Inr pruned'"
  then show "map stop (snd (process_query user_id invoke get_pruned_query query
                     no_ctx_template end_separator))
      = [if end_separator = [] then None else Some [end_separator]]"
    by (rule query_call_made)
qed

theorem stop_argument_witness:
  "map stop (snd (process_context_query ''u'' (fixed_docs [doc_a]) page_contents echo_llm
                    join_pruner ''q'' 20 None None None [])) = [Some [[]]] \<and>
   map stop (snd (process_query ''u'' echo_llm join_pruner ''q'' None [])) = [None]"
  using stop_argument[where user_id = "''u''" and get_context_docs = "fixed_docs [doc_a]"
          and get_context_chunks = page_contents and invoke = echo_llm
          and get_pruned_query = join_pruner and query = "''q''" and ctx_limit = 20
          and scope_type = None and scope_list = None and template = None
          and end_separator = "[]" and docs = "[doc_a]" and pruned = "''alphaq''"
          and no_ctx_template = None and pruned' = "''q''"]
  by (simp add: fixed_docs_def join_pruner_def page_contents_def doc_a_def truthy_def)

subsection \<open>The prompt builder of the specification\<close>

lemma include_chunks_prefix:
  "used \<le> limit \<Longrightarrow> limit < used + sum_list (map m cs) \<Longrightarrow>
   \<exists>k<length cs. include_chunks m limit used cs = take k cs \<and>
      used + sum_list (map m (take k cs)) \<le> limit \<and>
      limit < used + sum_list (map m (take (Suc k) cs))"
proof (induction cs arbitrary: used)
  case Nil
  then show ?case by simp
next
  case (Cons c cs)
  show ?case
  proof (cases "limit < used + m c")
    case True
    with Cons.prems show ?thesis by (intro exI[of _ 0]) simp
  next
    case False
    then have a: "used + m c \<le> limit" by simp
    from Cons.prems have b: "limit < (used + m c) + sum_list (map m cs)" by simp
    from Cons.IH[OF a b] obtain k where k: "k < length cs"
      "include_chunks m limit (used + m c) cs = take k cs"
      "used + m c + sum_list (map m (take k cs)) \<le> limit"
      "limit < used + m c + sum_list (map m (take (Suc k) cs))" by blast
    with False show ?thesis by (intro exI[of _ "Suc k"]) (simp add: add.assoc)
  qed
qed

text \<open>
  C9: when query and template alone exceed the limit, the builder raises
  \<open>ContextTooSmallError\<close>. When they fit and the token count of query, template and all
  chunks exceeds the limit, the builder includes the first \<open>k\<close> chunks for some \<open>k\<close> below
  the number of chunks: whole chunks in their order, which fit, while the first \<open>k + 1\<close>
  chunks do not.
\<close>

theorem prompt_builder_prefix:
  "(limit < measure_tokens query + measure_tokens template \<longrightarrow>
      prompt_builder measure_tokens limit template query chunks = Inl ContextTooSmallError) \<and>
   (measure_tokens query + measure_tokens template \<le> limit \<and>
    limit < tokens measure_tokens template query chunks \<longrightarrow>
      (\<exists>k<length chunks.
         prompt_builder measure_tokens limit template query chunks = Inr (take k chunks) \<and>
         tokens measure_tokens template query (take k chunks) \<le> limit \<and>
         limit < tokens measure_tokens template query (take (Suc k) chunks)))"
  using include_chunks_prefix[of "measure_tokens query + measure_tokens template" limit
          measure_tokens chunks]
  by (auto simp: prompt_builder_def tokens_def)

theorem prompt_builder_prefix_witness:
  "length ''cde'' + length ''ab'' \<le> (10::nat) \<and>
   10 < tokens length ''ab'' ''cde'' [''xx'', ''yyy'', ''zzzz''] \<and>
   prompt_builder length 10 ''ab'' ''cde'' [''xx'', ''yyy'', ''zzzz''] = Inr [''xx'', ''yyy''] \<and>
   (4::nat) < length ''cde'' + length ''ab'' \<and>
   prompt_builder length 4 ''ab'' ''cde'' [''xx''] = Inl ContextTooSmallError"
  using prompt_builder_prefix[of 10 length "''cde''" "''ab''" "[''xx'', ''yyy'', ''zzzz'']"]
        prompt_builder_prefix[of 4 length "''cde''" "''ab''" "[''xx'']"]
  by (simp add: prompt_builder_def tokens_def)

end
